theory Spec2Isabelle
  imports Complex_Main "HOL-Library.Multiset"
begin

section \<open>Data model: labelled series and frames\<close>

text \<open>
  The notebooks work on pandas objects. A \<open>pd.Series\<close> is an ordered list of
  (label, value) entries, where a label may occur more than once; a \<open>pd.DataFrame\<close>
  is a list of row labels, a list of column labels and a table of cells, row by row.
  Numbers are modelled as reals; a cell is \<open>None\<close> where pandas holds NaN (a missing
  value). Arithmetic on cells propagates NaN, and every comparison with NaN is false.
  Labels are strings. The operations are modelled as pandas 2 defines them.
\<close>

type_synonym label = string
type_synonym cell = "real option"
type_synonym series = "(label \<times> cell) list"

record frame =
  index :: "label list"
  columns :: "label list"
  cells :: "cell list list"

text \<open>A frame is well formed when its table has one row per row label and every row
  has one cell per column label.\<close>

definition wf_frame :: "frame \<Rightarrow> bool" where
  "wf_frame df \<longleftrightarrow>
     length (cells df) = length (index df) \<and>
     list_all (\<lambda>r. length r = length (columns df)) (cells df)"

datatype error = KeyError | ValueError string

definition ebind :: "error + 'a \<Rightarrow> ('a \<Rightarrow> error + 'b) \<Rightarrow> error + 'b" where
  "ebind m f = (case m of Inl e \<Rightarrow> Inl e | Inr v \<Rightarrow> f v)"

definition keys :: "series \<Rightarrow> label list" where
  "keys s = map fst s"

definition vals :: "series \<Rightarrow> cell list" where
  "vals s = map snd s"

subsection \<open>Prices with or without units\<close>

text \<open>
  \<open>Prices.apply(lambda x: x.magnitude)\<close> strips the unit of every price. On a series
  of plain numbers the attribute access raises \<open>AttributeError\<close>, which the source
  catches: it warns and takes the series as it is. An empty series never calls the
  lambda, so it raises nothing.
\<close>

datatype quantity = Quantity (magnitude: cell) (units: string)

datatype prices = WithUnits "(label \<times> quantity) list" | NoUnits series

definition no_units_warning :: string where
  "no_units_warning =
     ''Prices have no units.  BE CAREFUL!  We're assuming prices are per hectogram or deciliter!''"

fun magnitudes :: "prices \<Rightarrow> series \<times> string list" where
  "magnitudes (WithUnits qs) = (map (\<lambda>e. (fst e, magnitude (snd e))) qs, [])"
| "magnitudes (NoUnits s) = (s, if s = [] then [] else [no_units_warning])"

subsection \<open>The pandas operations the builder uses\<close>

definition neg :: "cell \<Rightarrow> cell" where
  "neg c = map_option uminus c"

definition abs_cell :: "cell \<Rightarrow> cell" where
  "abs_cell c = map_option abs c"

definition dropna :: "series \<Rightarrow> series" where
  "dropna s = filter (\<lambda>e. snd e \<noteq> None) s"

text \<open>\<open>Index.unique\<close>: the distinct labels, each at its first occurrence.\<close>

definition unique :: "label list \<Rightarrow> label list" where
  "unique ls = rev (remdups (rev ls))"

text \<open>\<open>Index.intersection\<close> (unsorted): the distinct labels of the left index that
  the right index has, in the order of the left index.\<close>

definition intersection :: "label list \<Rightarrow> label list \<Rightarrow> label list" where
  "intersection l r = filter (\<lambda>k. k \<in> set r) (unique l)"

text \<open>All positions that carry a label, and the positions a list of requested labels
  selects: for each requested label in turn, every position that carries it.\<close>

definition positions :: "label list \<Rightarrow> label \<Rightarrow> nat list" where
  "positions ls k = filter (\<lambda>i. ls ! i = k) [0..<length ls]"

definition indexer :: "label list \<Rightarrow> label list \<Rightarrow> nat list" where
  "indexer ls ks = concat (map (positions ls) ks)"

text \<open>\<open>s[ks]\<close> on a series, \<open>df[ks]\<close> (columns) and \<open>df.loc[ks]\<close> (rows) on a frame,
  with a list of labels: a requested label that is absent raises \<open>KeyError\<close>.\<close>

definition getitem_series :: "series \<Rightarrow> label list \<Rightarrow> error + series" where
  "getitem_series s ks =
     (if set ks \<subseteq> set (keys s) then Inr (map ((!) s) (indexer (keys s) ks))
      else Inl KeyError)"

definition getitem_columns :: "frame \<Rightarrow> label list \<Rightarrow> error + frame" where
  "getitem_columns df ks =
     (if set ks \<subseteq> set (columns df)
      then (let js = indexer (columns df) ks
            in Inr \<lparr>index = index df,
                    columns = map ((!) (columns df)) js,
                    cells = map (\<lambda>r. map ((!) r) js) (cells df)\<rparr>)
      else Inl KeyError)"

definition loc_rows :: "frame \<Rightarrow> label list \<Rightarrow> error + frame" where
  "loc_rows df ks =
     (if set ks \<subseteq> set (index df)
      then (let js = indexer (index df) ks
            in Inr \<lparr>index = map ((!) (index df)) js,
                    columns = columns df,
                    cells = map ((!) (cells df)) js\<rparr>)
      else Inl KeyError)"

definition fillna :: "real \<Rightarrow> frame \<Rightarrow> frame" where
  "fillna v df =
     df\<lparr>cells := map (map (\<lambda>c. case c of None \<Rightarrow> Some v | Some u \<Rightarrow> Some u)) (cells df)\<rparr>"

definition duplicate_axis :: error where
  "duplicate_axis = ValueError ''cannot reindex on an axis with duplicate labels''"

text \<open>
  \<open>df.reindex(target, axis=0)\<close>: when the row labels already equal the target the
  frame is returned as it is (also when labels repeat); otherwise repeated row labels
  raise \<open>ValueError\<close>; otherwise each target label takes the row that carries it, or a
  row of NaN when no row does.
\<close>

definition row_or_nan :: "frame \<Rightarrow> label \<Rightarrow> cell list" where
  "row_or_nan df k =
     (case positions (index df) k of
        [] \<Rightarrow> replicate (length (columns df)) None
      | i # _ \<Rightarrow> cells df ! i)"

definition reindex_rows :: "frame \<Rightarrow> label list \<Rightarrow> error + frame" where
  "reindex_rows df target =
     (if index df = target then Inr df
      else if \<not> distinct (index df) then Inl duplicate_axis
      else Inr \<lparr>index = target,
                columns = columns df,
                cells = map (row_or_nan df) target\<rparr>)"

text \<open>\<open>df.reindex(target, axis=1)\<close>: the same along the columns.\<close>

definition reindex_columns :: "frame \<Rightarrow> label list \<Rightarrow> error + frame" where
  "reindex_columns df target =
     (if columns df = target then Inr df
      else if \<not> distinct (columns df) then Inl duplicate_axis
      else Inr \<lparr>index = index df,
                columns = target,
                cells = map (\<lambda>r. map (\<lambda>k. case positions (columns df) k of
                                                [] \<Rightarrow> None
                                              | j # _ \<Rightarrow> r ! j) target) (cells df)\<rparr>)"

definition neg_frame :: "frame \<Rightarrow> frame" where
  "neg_frame df = df\<lparr>cells := map (map neg) (cells df)\<rparr>"

definition neg_series :: "series \<Rightarrow> series" where
  "neg_series s = map (\<lambda>e. (fst e, neg (snd e))) s"

text \<open>\<open>pd.concat([upper, lower])\<close> of two frames that carry the same column labels
  (both are row selections of \<open>Aall\<close>): the rows of the second under the rows of the
  first.\<close>

definition concat_frames :: "frame \<Rightarrow> frame \<Rightarrow> frame" where
  "concat_frames upper lower =
     \<lparr>index = index upper @ index lower,
      columns = columns upper,
      cells = cells upper @ cells lower\<rparr>"

definition no_defined_columns :: error where
  "no_defined_columns = ValueError ''cannot set a frame with no defined columns''"

text \<open>
  \<open>df.loc[k] = v\<close> with a scalar: when the label \<open>k\<close> is a row label already, every
  row that carries it is overwritten with \<open>v\<close>; otherwise a row of \<open>v\<close> labelled \<open>k\<close>
  is appended, which pandas refuses on a frame without columns. \<open>s.loc[k] = v\<close> on a
  series overwrites or appends in the same way.
\<close>

definition loc_set_row :: "frame \<Rightarrow> label \<Rightarrow> cell \<Rightarrow> error + frame" where
  "loc_set_row df k v =
     (let fresh = replicate (length (columns df)) v in
      if k \<in> set (index df)
      then Inr (df\<lparr>cells := map (\<lambda>e. if fst e = k then fresh else snd e)
                                  (zip (index df) (cells df))\<rparr>)
      else if columns df = [] then Inl no_defined_columns
      else Inr (df\<lparr>index := index df @ [k], cells := cells df @ [fresh]\<rparr>))"

definition loc_set_entry :: "series \<Rightarrow> label \<Rightarrow> cell \<Rightarrow> series" where
  "loc_set_entry s k v =
     (if k \<in> set (keys s) then map (\<lambda>e. if fst e = k then (k, v) else e) s
      else s @ [(k, v)])"

section \<open>The problem builder of \<open>solve_subsistence_problem\<close>\<close>

text \<open>
  The nutrient rows: from \<open>p = p.dropna()\<close> to \<open>A = A.reindex(b.index,axis=0)\<close>.
  \<open>FoodNutrients\<close> has one row per nutrient and one column per food: the code
  selects the priced foods among its columns and the bounded nutrients among its rows
  (the docstring names the two axes the other way round). The two \<open>idx\<close> frames
  the source builds on the way are never used and are left out.
\<close>

definition assemble ::
  "frame \<Rightarrow> series \<Rightarrow> series \<Rightarrow> series \<Rightarrow> error + (series \<times> frame \<times> series)" where
  "assemble FoodNutrients p0 dietmin dietmax =
     (let p1 = dropna p0;
          use = intersection (keys p1) (columns FoodNutrients) in
      ebind (getitem_series p1 use) (\<lambda>p.
      ebind (getitem_columns FoodNutrients (keys p)) (\<lambda>sel.
      let Aall = fillna 0 sel in
      ebind (loc_rows Aall (intersection (index Aall) (keys dietmin))) (\<lambda>Amin0.
      ebind (reindex_rows Amin0 (keys dietmin)) (\<lambda>Amin.
      ebind (loc_rows Aall (intersection (index Aall) (keys dietmax))) (\<lambda>Amax0.
      ebind (reindex_rows Amax0 (keys dietmax)) (\<lambda>Amax.
      let A0 = concat_frames Amin (neg_frame Amax);
          b = dietmin @ neg_series dietmax in
      ebind (reindex_columns A0 (keys p)) (\<lambda>A1.
      ebind (reindex_rows A1 (keys b)) (\<lambda>A.
      Inr (p, A, b))))))))))"

text \<open>The optional cap on the total weight: \<open>if max_weight is not None: ...\<close>.\<close>

definition add_max_weight ::
  "real option \<Rightarrow> series \<times> frame \<times> series \<Rightarrow> error + (series \<times> frame \<times> series)" where
  "add_max_weight max_weight inst =
     (case inst of (p, A, b) \<Rightarrow>
       (case max_weight of
          None \<Rightarrow> Inr (p, A, b)
        | Some w \<Rightarrow>
            ebind (loc_set_row A ''Hectograms'' (Some (- 1))) (\<lambda>A'.
            Inr (p, A', loc_set_entry b ''Hectograms'' (Some (- w))))))"

definition build ::
  "frame \<Rightarrow> series \<Rightarrow> series \<Rightarrow> series \<Rightarrow> real option \<Rightarrow>
     error + (series \<times> frame \<times> series)" where
  "build FoodNutrients p0 dietmin dietmax max_weight =
     ebind (assemble FoodNutrients p0 dietmin dietmax) (add_max_weight max_weight)"

section \<open>The problem of the lecture notebook\<close>

text \<open>
  The lecture notebook builds the problem in its cells, from the catalogue \<open>D\<close> and
  the recommended minima \<open>bmin\<close> and maxima \<open>bmax\<close>; the model takes the bounds of one
  age and sex group, the column \<open>b[group]\<close> the solver is given. The rows are selected
  by \<open>Aall.loc[bmin.index]\<close> and \<open>Aall.loc[bmax.index]\<close>, with neither the
  intersection nor the reindexing of the project notebook, so a bounded nutrient that
  has no row in the catalogue raises \<open>KeyError\<close>.
\<close>

definition lecture_problem ::
  "frame \<Rightarrow> series \<Rightarrow> series \<Rightarrow> series \<Rightarrow> error + (series \<times> frame \<times> series)" where
  "lecture_problem D p0 bmin bmax =
     (let p1 = dropna p0;
          use = intersection (keys p1) (columns D) in
      ebind (getitem_series p1 use) (\<lambda>p.
      ebind (getitem_columns D (keys p)) (\<lambda>sel.
      let Aall = fillna 0 sel in
      ebind (loc_rows Aall (keys bmin)) (\<lambda>Amin.
      ebind (loc_rows Aall (keys bmax)) (\<lambda>Amax.
      let A = concat_frames Amin (neg_frame Amax);
          b = bmin @ neg_series bmax in
      Inr (p, A, b))))))"

section \<open>The solver call and the returned result\<close>

text \<open>
  \<open>scipy.optimize.linprog\<close> is a library outside the repository; the model takes it as
  a parameter. It receives the cost vector \<open>c\<close>, the matrix \<open>A_ub\<close> and the vector
  \<open>b_ub\<close>, and either raises or returns an \<open>OptimizeResult\<close>, of which the source reads
  \<open>x\<close>, \<open>fun\<close>, \<open>success\<close>, \<open>status\<close> and \<open>message\<close>.
\<close>

record optimize_result =
  res_x :: "real list"
  res_fun :: real
  res_success :: bool
  res_status :: nat
  res_message :: string

type_synonym backend = "cell list \<Rightarrow> cell list list \<Rightarrow> cell list \<Rightarrow> error + optimize_result"

text \<open>The result the function returns: the solver's result with the attributes
  \<open>A\<close>, \<open>b\<close> and \<open>diet\<close> the source sets on it.\<close>

record result = optimize_result +
  res_A :: frame
  res_b :: series
  res_diet :: series

text \<open>The arguments of \<open>lp(p, -A, -b, method='interior-point')\<close>.\<close>

definition lp_arguments :: "series \<times> frame \<times> series \<Rightarrow> cell list \<times> cell list list \<times> cell list" where
  "lp_arguments inst =
     (case inst of (p, A, b) \<Rightarrow> (vals p, cells (neg_frame A), vals (neg_series b)))"

text \<open>\<open>pd.Series(values, index=labels)\<close> raises when the two lengths differ.\<close>

definition length_mismatch :: error where
  "length_mismatch = ValueError ''Length of values does not match length of index''"

definition Series :: "real list \<Rightarrow> label list \<Rightarrow> error + series" where
  "Series values labels =
     (if length values = length labels then Inr (zip labels (map Some values))
      else Inl length_mismatch)"

text \<open>\<open>s * np.nan\<close>: every entry becomes NaN.\<close>

definition times_nan :: "series \<Rightarrow> series" where
  "times_nan s = map (\<lambda>e. (fst e, None)) s"

text \<open>
  The function returns the result; the second component lists the warnings it has
  issued on the way. The parameter \<open>tol\<close> is accepted and never read.
\<close>

definition solve_subsistence_problem ::
  "backend \<Rightarrow> frame \<Rightarrow> prices \<Rightarrow> series \<Rightarrow> series \<Rightarrow> real option \<Rightarrow> real \<Rightarrow>
     error + (result \<times> string list)" where
  "solve_subsistence_problem lp FoodNutrients Prices dietmin dietmax max_weight tol =
     (case magnitudes Prices of (p0, ws) \<Rightarrow>
      ebind (build FoodNutrients p0 dietmin dietmax max_weight) (\<lambda>inst.
      case inst of (p, A, b) \<Rightarrow>
      case lp_arguments inst of (c, A_ub, b_ub) \<Rightarrow>
      ebind (lp c A_ub b_ub) (\<lambda>r.
      if res_success r
      then ebind (Series (res_x r) (keys p)) (\<lambda>d.
             Inr (optimize_result.extend r
                    \<lparr>res_A = A, res_b = b, res_diet = d\<rparr>, ws))
      else ebind (Series (res_x r) (keys p)) (\<lambda>d.
             Inr (optimize_result.extend r
                    \<lparr>res_A = A, res_b = b, res_diet = times_nan d\<rparr>,
                  ws @ [res_message r])))))"

section \<open>Diagnostics: outcomes and constraining nutrients\<close>

definition mul_cell :: "cell \<Rightarrow> cell \<Rightarrow> cell" where
  "mul_cell a b = (case (a, b) of (Some u, Some v) \<Rightarrow> Some (u * v) | _ \<Rightarrow> None)"

definition add_cell :: "cell \<Rightarrow> cell \<Rightarrow> cell" where
  "add_cell a b = (case (a, b) of (Some u, Some v) \<Rightarrow> Some (u + v) | _ \<Rightarrow> None)"

definition sub_cell :: "cell \<Rightarrow> cell \<Rightarrow> cell" where
  "sub_cell a b = (case (a, b) of (Some u, Some v) \<Rightarrow> Some (u - v) | _ \<Rightarrow> None)"

definition lt_cell :: "cell \<Rightarrow> cell \<Rightarrow> bool" where
  "lt_cell a b = (case (a, b) of (Some u, Some v) \<Rightarrow> u < v | _ \<Rightarrow> False)"

definition le_cell :: "cell \<Rightarrow> cell \<Rightarrow> bool" where
  "le_cell a b = (case (a, b) of (Some u, Some v) \<Rightarrow> u \<le> v | _ \<Rightarrow> False)"

text \<open>The inner product of a matrix row with a vector of the same length.\<close>

definition dot :: "cell list \<Rightarrow> cell list \<Rightarrow> cell" where
  "dot row v = foldr add_cell (map (\<lambda>e. mul_cell (fst e) (snd e)) (zip row v)) (Some 0)"

text \<open>
  \<open>tab = pd.DataFrame({"Outcome": np.abs(A).dot(diet), "Recommendation": np.abs(b)})\<close>:
  one line per constraint, with its label, outcome and recommendation. The columns of
  \<open>A\<close> are the labels of \<open>diet\<close> and the rows of \<open>A\<close> are the labels of \<open>b\<close>, so the
  product and the two columns align position by position.
\<close>

definition tab :: "frame \<Rightarrow> series \<Rightarrow> series \<Rightarrow> (label \<times> cell \<times> cell) list" where
  "tab A b diet =
     zip (keys b)
       (zip (map (\<lambda>row. dot (map abs_cell row) (vals diet)) (cells A))
            (map abs_cell (vals b)))"

text \<open>\<open>excess = tab.diff(axis=1).iloc[:,1]\<close>: recommendation minus outcome.\<close>

definition excess :: "(label \<times> cell \<times> cell) list \<Rightarrow> series" where
  "excess t = map (\<lambda>e. (fst e, sub_cell (snd (snd e)) (fst (snd e)))) t"

text \<open>\<open>excess.loc[np.abs(excess) < bound].index.tolist()\<close>.\<close>

definition below :: "real \<Rightarrow> series \<Rightarrow> label list" where
  "below bound e = keys (filter (\<lambda>x. lt_cell (abs_cell (snd x)) (Some bound)) e)"

text \<open>The bound is \<open>tol*100\<close> in the project notebook and \<open>tol\<close> in the lecture
  notebook.\<close>

definition constraining_project :: "real \<Rightarrow> frame \<Rightarrow> series \<Rightarrow> series \<Rightarrow> label list" where
  "constraining_project tol A b diet = below (tol * 100) (excess (tab A b diet))"

definition constraining_lecture :: "real \<Rightarrow> frame \<Rightarrow> series \<Rightarrow> series \<Rightarrow> label list" where
  "constraining_lecture tol A b diet = below tol (excess (tab A b diet))"

section \<open>The linear programs\<close>

text \<open>
  The problem the notebooks state, \<open>min p'x\<close> such that \<open>Ax \<ge> b\<close>, and the problem the
  solver documents, \<open>min c'x\<close> such that \<open>A_ub x \<le> b_ub\<close>, both over \<open>x \<ge> 0\<close> (the
  solver's default bounds). A row or bound that holds NaN is satisfied by no \<open>x\<close>.
\<close>

definition objective :: "cell list \<Rightarrow> real list \<Rightarrow> cell" where
  "objective c x = dot c (map Some x)"

definition feasible_ge :: "cell list list \<Rightarrow> cell list \<Rightarrow> real list \<Rightarrow> bool" where
  "feasible_ge A b x \<longleftrightarrow>
     list_all (\<lambda>v. 0 \<le> v) x \<and>
     list_all (\<lambda>e. le_cell (snd e) (dot (fst e) (map Some x))) (zip A b)"

definition feasible_ub :: "cell list list \<Rightarrow> cell list \<Rightarrow> real list \<Rightarrow> bool" where
  "feasible_ub A_ub b_ub x \<longleftrightarrow>
     list_all (\<lambda>v. 0 \<le> v) x \<and>
     list_all (\<lambda>e. le_cell (dot (fst e) (map Some x)) (snd e)) (zip A_ub b_ub)"

definition optimal_ge :: "cell list \<Rightarrow> cell list list \<Rightarrow> cell list \<Rightarrow> real list \<Rightarrow> bool" where
  "optimal_ge c A b x \<longleftrightarrow>
     length x = length c \<and> feasible_ge A b x \<and>
     (\<forall>y. length y = length c \<and> feasible_ge A b y \<longrightarrow> le_cell (objective c x) (objective c y))"

definition optimal_ub :: "cell list \<Rightarrow> cell list list \<Rightarrow> cell list \<Rightarrow> real list \<Rightarrow> bool" where
  "optimal_ub c A_ub b_ub x \<longleftrightarrow>
     length x = length c \<and> feasible_ub A_ub b_ub x \<and>
     (\<forall>y. length y = length c \<and> feasible_ub A_ub b_ub y \<longrightarrow>
          le_cell (objective c x) (objective c y))"

section \<open>Example inputs\<close>

text \<open>
  A catalogue with one nutrient \<open>N\<close> and the foods \<open>A\<close> (10 units of \<open>N\<close>), \<open>B\<close>
  (5 units) and \<open>D\<close> (yield unknown); prices for \<open>A\<close>, for \<open>B\<close> (missing) and for a food
  \<open>C\<close> the catalogue does not list; and a solver that answers every call with the
  same result.
\<close>

definition demo_catalogue :: frame where
  "demo_catalogue =
     \<lparr>index = [''N''], columns = [''A'', ''B'', ''D''], cells = [[Some 10, Some 5, None]]\<rparr>"

definition demo_prices :: series where
  "demo_prices = [(''A'', Some 1), (''B'', None), (''C'', Some 3)]"

definition demo_answer :: optimize_result where
  "demo_answer =
     \<lparr>res_x = [2], res_fun = 2, res_success = True, res_status = 0,
      res_message = ''Optimization terminated successfully.''\<rparr>"

definition always :: "optimize_result \<Rightarrow> backend" where
  "always r c A_ub b_ub = Inr r"

text \<open>
  The two goods of the specification's scenario: \<open>A\<close> costs 1 and yields 10 units of the
  nutrient \<open>N\<close>, \<open>B\<close> costs 2 and yields 5 units.
\<close>

definition two_goods :: frame where
  "two_goods = \<lparr>index = [''N''], columns = [''A'', ''B''], cells = [[Some 10, Some 5]]\<rparr>"

definition two_prices :: series where
  "two_prices = [(''A'', Some 1), (''B'', Some 2)]"

text \<open>
  Prices that name only a food the catalogue does not list, so that no good is usable;
  and a catalogue that also lists the weight of each good, one hectogram per unit, as
  the row \<open>Hectograms\<close>.
\<close>

definition unlisted_prices :: series where
  "unlisted_prices = [(''C'', Some 3)]"

definition weighed_goods :: frame where
  "weighed_goods =
     \<lparr>index = [''N'', ''Hectograms''], columns = [''A'', ''B''],
      cells = [[Some 10, Some 5], [Some 1, Some 1]]\<rparr>"


section \<open>The rows the specification describes\<close>

text \<open>
  Following the specification (the builder's steps 2 and 3): the catalogue's entry for
  a nutrient and a good, and the yield vector of a nutrient over a list of goods, in
  which a yield that the catalogue does not give counts as zero.
\<close>

definition cell_at :: "frame \<Rightarrow> label \<Rightarrow> label \<Rightarrow> cell" where
  "cell_at df n g =
     (case positions (index df) n of
        [] \<Rightarrow> None
      | i # _ \<Rightarrow> (case positions (columns df) g of
                    [] \<Rightarrow> None
                  | j # _ \<Rightarrow> cells df ! i ! j))"

definition yield_vector :: "frame \<Rightarrow> label list \<Rightarrow> label \<Rightarrow> cell list" where
  "yield_vector FoodNutrients goods n =
     map (\<lambda>g. case cell_at FoodNutrients n g of None \<Rightarrow> Some 0 | Some v \<Rightarrow> Some v) goods"

text \<open>
  A catalogue with a second nutrient \<open>M\<close>, whose yield in \<open>A\<close> is unknown, and bounds
  that name \<open>N\<close> from both sides, \<open>M\<close> from below and a nutrient \<open>Z\<close> the catalogue
  does not list.
\<close>

definition two_nutrients :: frame where
  "two_nutrients =
     \<lparr>index = [''N'', ''M''], columns = [''A'', ''B''],
      cells = [[Some 10, Some 5], [None, Some 3]]\<rparr>"

definition demo_min :: series where
  "demo_min = [(''N'', Some 20), (''M'', Some 1), (''Z'', Some 4)]"

definition demo_max :: series where
  "demo_max = [(''N'', Some 50)]"

text \<open>
  Inputs with repeated identifiers: a price series that prices \<open>A\<close> twice, a bound
  series that bounds \<open>N\<close> twice, a catalogue with two columns \<open>A\<close> and a catalogue with
  two rows \<open>N\<close>.
\<close>

definition twice_priced :: series where
  "twice_priced = [(''A'', Some 1), (''A'', Some 3), (''B'', Some 2)]"

definition twice_bounded :: series where
  "twice_bounded = [(''N'', Some 20), (''N'', Some 30)]"

definition two_columns_A :: frame where
  "two_columns_A = \<lparr>index = [''N''], columns = [''A'', ''A''], cells = [[Some 10, Some 5]]\<rparr>"

definition two_rows_N :: frame where
  "two_rows_N = \<lparr>index = [''N'', ''N''], columns = [''A''], cells = [[Some 10], [Some 5]]\<rparr>"

section \<open>Binding constraints and tightened bounds\<close>

text \<open>
  Following the specification: a constraint is binding for a bound \<open>thr\<close> when its
  outcome and its recommendation are both numbers and differ by less than \<open>thr\<close>.
\<close>

definition binding :: "real \<Rightarrow> cell \<Rightarrow> cell \<Rightarrow> bool" where
  "binding thr outcome recommendation \<longleftrightarrow>
     (\<exists>u v. outcome = Some u \<and> recommendation = Some v \<and> \<bar>v - u\<bar> < thr)"

text \<open>
  Following the specification: the second pair of bound series tightens the first.
  Every bound keeps its label and its place, and either stays as it is or is tightened:
  a minimum is raised, a maximum is lowered. Changing a single bound is the special
  case in which all other entries stay as they are.
\<close>

definition tightens :: "series \<Rightarrow> series \<Rightarrow> series \<Rightarrow> series \<Rightarrow> bool" where
  "tightens dietmin dietmax dietmin' dietmax' \<longleftrightarrow>
     keys dietmin' = keys dietmin \<and> keys dietmax' = keys dietmax \<and>
     list_all (\<lambda>e. fst e = snd e \<or> le_cell (fst e) (snd e)) (zip (vals dietmin) (vals dietmin')) \<and>
     list_all (\<lambda>e. fst e = snd e \<or> le_cell (snd e) (fst e)) (zip (vals dietmax) (vals dietmax'))"

section \<open>Basic facts about the operations\<close>

lemma ebind_Inr [simp]: "ebind (Inr v) f = f v"
  by (simp add: ebind_def)

lemma ebind_Inl [simp]: "ebind (Inl e) f = Inl e"
  by (simp add: ebind_def)

lemma ebind_eq_Inr: "ebind m f = Inr y \<longleftrightarrow> (\<exists>v. m = Inr v \<and> f v = Inr y)"
  by (cases m) simp_all

lemma ebind_eq_Inl: "ebind m f = Inl e \<longleftrightarrow> m = Inl e \<or> (\<exists>v. m = Inr v \<and> f v = Inl e)"
  by (cases m) simp_all

lemma set_unique [simp]: "set (unique ls) = set ls"
  by (simp add: unique_def)

lemma distinct_unique [simp]: "distinct (unique ls)"
  by (simp add: unique_def)

lemma unique_distinct: "distinct ls \<Longrightarrow> unique ls = ls"
  by (simp add: unique_def distinct_remdups_id)

lemma set_intersection [simp]: "set (intersection l r) = set l \<inter> set r"
  by (auto simp: intersection_def)

lemma distinct_intersection [simp]: "distinct (intersection l r)"
  by (simp add: intersection_def)

lemma set_positions: "set (positions ls k) = {i. i < length ls \<and> ls ! i = k}"
  by (auto simp: positions_def)

lemma set_indexer: "set (indexer ls ks) = {i. i < length ls \<and> ls ! i \<in> set ks}"
  by (auto simp: indexer_def set_positions)

lemma positions_Nil_iff: "positions ls k = [] \<longleftrightarrow> k \<notin> set ls"
  by (auto simp: positions_def filter_empty_conv in_set_conv_nth)

lemma set_map_nth_indexer:
  "length ls = length s \<Longrightarrow> set (map ((!) s) (indexer ls ks)) = {e. \<exists>i<length s. e = s ! i \<and> ls ! i \<in> set ks}"
  by (auto simp: set_indexer)

lemma set_getitem_series:
  assumes "getitem_series s ks = Inr p"
  shows "set p = {e \<in> set s. fst e \<in> set ks}"
proof -
  from assms have p: "p = map ((!) s) (indexer (keys s) ks)"
    by (auto simp: getitem_series_def split: if_splits)
  have "set p = {e. \<exists>i<length s. e = s ! i \<and> keys s ! i \<in> set ks}"
    unfolding p by (rule set_map_nth_indexer) (simp add: keys_def)
  also have "\<dots> = {e \<in> set s. fst e \<in> set ks}"
    by (force simp: keys_def in_set_conv_nth[of _ s])
  finally show ?thesis .
qed

lemma reindex_rows_Inr:
  assumes "reindex_rows df t = Inr r"
  shows "columns r = columns df" and "index r = t"
  using assms by (auto simp: reindex_rows_def split: if_splits)

lemma reindex_columns_Inr:
  assumes "reindex_columns df t = Inr r"
  shows "columns r = t" and "index r = index df"
  using assms by (auto simp: reindex_columns_def split: if_splits)

lemma loc_rows_Inr:
  assumes "loc_rows df ks = Inr r"
  shows "columns r = columns df"
  using assms by (auto simp: loc_rows_def Let_def split: if_splits)

lemma loc_set_row_Inr:
  assumes "loc_set_row df k v = Inr r"
  shows "columns r = columns df"
  using assms by (auto simp: loc_set_row_def Let_def split: if_splits)

lemma keys_append [simp]: "keys (s @ t) = keys s @ keys t"
  by (simp add: keys_def)

lemma keys_neg_series [simp]: "keys (neg_series s) = keys s"
  by (simp add: keys_def neg_series_def comp_def)

lemma set_dropna: "set (dropna s) = {e \<in> set s. snd e \<noteq> None}"
  by (auto simp: dropna_def)

lemma assemble_Inr:
  assumes "assemble FoodNutrients p0 dietmin dietmax = Inr (p, A, b)"
  shows "set p = {e \<in> set p0. snd e \<noteq> None \<and> fst e \<in> set (columns FoodNutrients)}"
    and "columns A = keys p"
    and "index A = keys dietmin @ keys dietmax"
    and "b = dietmin @ neg_series dietmax"
proof -
  let ?p1 = "dropna p0"
  let ?use = "intersection (keys ?p1) (columns FoodNutrients)"
  from assms obtain A1 where
    p: "getitem_series ?p1 ?use = Inr p" and
    A1: "reindex_columns A1 (keys p) = Inr A1 \<or> True" and
    A: "\<exists>A0. reindex_columns A0 (keys p) = Inr A1 \<and> reindex_rows A1 (keys (dietmin @ neg_series dietmax)) = Inr A" and
    b: "b = dietmin @ neg_series dietmax"
    unfolding assemble_def Let_def ebind_eq_Inr by auto
  from set_getitem_series[OF p]
  show "set p = {e \<in> set p0. snd e \<noteq> None \<and> fst e \<in> set (columns FoodNutrients)}"
    by (auto simp: set_dropna keys_def)
  from A obtain A0 where A0: "reindex_columns A0 (keys p) = Inr A1"
    and A': "reindex_rows A1 (keys (dietmin @ neg_series dietmax)) = Inr A" by blast
  show "columns A = keys p"
    using reindex_rows_Inr(1)[OF A'] reindex_columns_Inr(1)[OF A0] by simp
  show "index A = keys dietmin @ keys dietmax"
    using reindex_rows_Inr(2)[OF A'] by simp
  show "b = dietmin @ neg_series dietmax" by (rule b)
qed

section \<open>The usable goods\<close>

lemma build_Inr:
  assumes "build FoodNutrients p0 dietmin dietmax max_weight = Inr (p, A, b)"
  shows "set p = {e \<in> set p0. snd e \<noteq> None \<and> fst e \<in> set (columns FoodNutrients)}"
    and "columns A = keys p"
proof -
  from assms obtain A0 b0 where
    asm: "assemble FoodNutrients p0 dietmin dietmax = Inr (p, A0, b0)" and
    add: "add_max_weight max_weight (p, A0, b0) = Inr (p, A, b)"
    unfolding build_def ebind_eq_Inr
    by (auto simp: add_max_weight_def ebind_eq_Inr split: option.splits)
  show "set p = {e \<in> set p0. snd e \<noteq> None \<and> fst e \<in> set (columns FoodNutrients)}"
    by (rule assemble_Inr(1)[OF asm])
  have "columns A = columns A0"
    using add by (auto simp: add_max_weight_def ebind_eq_Inr loc_set_row_Inr split: option.splits)
  then show "columns A = keys p"
    by (simp add: assemble_Inr(2)[OF asm])
qed

lemma Series_Inr: "Series xs ls = Inr d \<Longrightarrow> keys d = ls \<and> vals d = map Some xs"
  by (auto simp: Series_def keys_def vals_def split: if_splits)

lemma keys_times_nan [simp]: "keys (times_nan d) = keys d"
  by (simp add: times_nan_def keys_def comp_def)

lemma solve_Inr:
  assumes "solve_subsistence_problem lp FoodNutrients Prices dietmin dietmax max_weight tol = Inr (res, ws)"
  obtains p r d where
    "build FoodNutrients (fst (magnitudes Prices)) dietmin dietmax max_weight = Inr (p, res_A res, res_b res)"
    "lp (vals p) (cells (neg_frame (res_A res))) (vals (neg_series (res_b res))) = Inr r"
    "Series (res_x r) (keys p) = Inr d"
    "res_x res = res_x r" "res_fun res = res_fun r" "res_success res = res_success r"
    "res_status res = res_status r" "res_message res = res_message r"
    "res_diet res = (if res_success r then d else times_nan d)"
    "ws = snd (magnitudes Prices) @ (if res_success r then [] else [res_message r])"
  using assms
  unfolding solve_subsistence_problem_def lp_arguments_def
  by (auto simp: ebind_eq_Inr optimize_result.defs split: prod.splits if_splits)

text \<open>
  Claim C2. Whenever the function returns, the goods of the cost vector are exactly
  the goods that have a price other than NaN and are a column of the catalogue; the
  constraint matrix has these goods as its columns and the reported diet has them as
  its labels, in the same order. A good without price, with a NaN price, or outside
  the catalogue is in none of the three.
\<close>

theorem usable_goods:
  assumes "solve_subsistence_problem lp FoodNutrients Prices dietmin dietmax max_weight tol
             = Inr (res, ws)"
  shows "\<exists>p. build FoodNutrients (fst (magnitudes Prices)) dietmin dietmax max_weight
               = Inr (p, res_A res, res_b res) \<and>
             set p = {e \<in> set (fst (magnitudes Prices)).
                        snd e \<noteq> None \<and> fst e \<in> set (columns FoodNutrients)} \<and>
             set (keys p) = {g. \<exists>v. (g, Some v) \<in> set (fst (magnitudes Prices))}
                              \<inter> set (columns FoodNutrients) \<and>
             columns (res_A res) = keys p \<and>
             keys (res_diet res) = keys p"
proof (rule solve_Inr[OF assms], goal_cases)
  case (1 p r d)
  note b = 1(1) and d = 1(3) and diet = 1(9)
  have sp: "set p = {e \<in> set (fst (magnitudes Prices)).
                        snd e \<noteq> None \<and> fst e \<in> set (columns FoodNutrients)}"
    by (rule build_Inr(1)[OF b])
  have "set (keys p) = fst ` set p" by (simp add: keys_def)
  also have "\<dots> = {g. \<exists>v. (g, Some v) \<in> set (fst (magnitudes Prices))} \<inter> set (columns FoodNutrients)"
    unfolding sp by force
  finally have sk: "set (keys p) = {g. \<exists>v. (g, Some v) \<in> set (fst (magnitudes Prices))} \<inter> set (columns FoodNutrients)" .
  have "keys (res_diet res) = keys p"
    using Series_Inr[OF d] diet by simp
  with b sp sk build_Inr(2)[OF b] show ?thesis by blast
qed

theorem usable_goods_witness:
  "solve_subsistence_problem (always demo_answer) demo_catalogue (NoUnits demo_prices)
       [(''N'', Some 20)] [] None (1 / 1000000)
     = Inr (optimize_result.extend demo_answer
              \<lparr>res_A = \<lparr>index = [''N''], columns = [''A''], cells = [[Some 10]]\<rparr>,
               res_b = [(''N'', Some 20)],
               res_diet = [(''A'', Some 2)]\<rparr>, [no_units_warning]) \<and>
   (\<exists>p. build demo_catalogue demo_prices [(''N'', Some 20)] [] None
            = Inr (p, \<lparr>index = [''N''], columns = [''A''], cells = [[Some 10]]\<rparr>,
                   [(''N'', Some 20)]) \<and>
        set p = {e \<in> set demo_prices. snd e \<noteq> None \<and> fst e \<in> set (columns demo_catalogue)} \<and>
        set (keys p) = {g. \<exists>v. (g, Some v) \<in> set demo_prices} \<inter> set (columns demo_catalogue) \<and>
        [''A''] = keys p)"
proof -
  have run: "solve_subsistence_problem (always demo_answer) demo_catalogue (NoUnits demo_prices)
       [(''N'', Some 20)] [] None (1 / 1000000)
     = Inr (optimize_result.extend demo_answer
              \<lparr>res_A = \<lparr>index = [''N''], columns = [''A''], cells = [[Some 10]]\<rparr>,
               res_b = [(''N'', Some 20)],
               res_diet = [(''A'', Some 2)]\<rparr>, [no_units_warning])"
    by code_simp
  show ?thesis
    using run usable_goods [OF run] by (simp add: optimize_result.defs keys_def)
qed

section \<open>The problem handed to the solver\<close>

lemma dot_Nil [simp]: "dot [] v = Some 0" "dot row [] = Some 0"
  by (simp_all add: dot_def)

lemma dot_Cons [simp]: "dot (a # row) (u # v) = add_cell (mul_cell a u) (dot row v)"
  by (simp add: dot_def)

lemma mul_cell_simps [simp]:
  "mul_cell (Some u) (Some v) = Some (u * v)" "mul_cell None b = None" "mul_cell a None = None"
  by (simp_all add: mul_cell_def split: option.splits)

lemma add_cell_simps [simp]:
  "add_cell (Some u) (Some v) = Some (u + v)" "add_cell None b = None" "add_cell a None = None"
  by (simp_all add: add_cell_def split: option.splits)

lemma le_cell_simps [simp]:
  "le_cell (Some u) (Some v) \<longleftrightarrow> u \<le> v" "le_cell None b = False" "le_cell a None = False"
  by (simp_all add: le_cell_def split: option.splits)

lemma neg_simps [simp]: "neg (Some u) = Some (- u)" "neg None = None"
  by (simp_all add: neg_def)

lemma neg_neg [simp]: "neg (neg a) = a"
  by (cases a) simp_all

lemma mul_cell_neg: "mul_cell (neg a) b = neg (mul_cell a b)"
  by (cases a; cases b) simp_all

lemma add_cell_neg: "add_cell (neg a) (neg b) = neg (add_cell a b)"
  by (cases a; cases b) simp_all

lemma le_cell_neg: "le_cell (neg a) (neg b) \<longleftrightarrow> le_cell b a"
  by (cases a; cases b) simp_all

lemma dot_neg: "dot (map neg row) v = neg (dot row v)"
proof (induction row arbitrary: v)
  case Nil
  show ?case by simp
next
  case (Cons a row)
  show ?case
  proof (cases v)
    case Nil
    then show ?thesis by simp
  next
    case (Cons u v')
    with Cons.IH show ?thesis by (simp add: mul_cell_neg add_cell_neg)
  qed
qed

lemma cells_neg_frame [simp]: "cells (neg_frame A) = map (map neg) (cells A)"
  by (simp add: neg_frame_def)

lemma vals_neg_series [simp]: "vals (neg_series b) = map neg (vals b)"
  by (simp add: neg_series_def vals_def comp_def)

lemma feasible_negated:
  "feasible_ub (map (map neg) A) (map neg b) x \<longleftrightarrow> feasible_ge A b x"
proof -
  have "zip (map (map neg) A) (map neg b) = map (\<lambda>e. (map neg (fst e), neg (snd e))) (zip A b)"
    by (simp add: zip_map_map case_prod_beta)
  then show ?thesis
    by (simp add: feasible_ub_def feasible_ge_def list_all_iff dot_neg le_cell_neg)
qed

lemma optimal_negated:
  "optimal_ub c (map (map neg) A) (map neg b) x \<longleftrightarrow> optimal_ge c A b x"
  by (simp add: optimal_ub_def optimal_ge_def feasible_negated)

text \<open>
  Claim C3. The solver receives the cost vector with the matrix and the bounds both
  negated. A vector satisfies the solver's rows \<open>(-A) x \<le> -b\<close> exactly when it satisfies
  the rows \<open>A x \<ge> b\<close>; it is optimal for the one problem exactly when it is optimal
  for the other, and the optimal values agree.
\<close>

theorem backend_problem_equivalent:
  assumes "lp_arguments (p, A, b) = (c, A_ub, b_ub)"
  shows "c = vals p \<and>
         (feasible_ub A_ub b_ub x \<longleftrightarrow> feasible_ge (cells A) (vals b) x) \<and>
         (optimal_ub c A_ub b_ub x \<longleftrightarrow> optimal_ge (vals p) (cells A) (vals b) x) \<and>
         (optimal_ub c A_ub b_ub x \<and> objective c x = v \<longleftrightarrow>
            optimal_ge (vals p) (cells A) (vals b) x \<and> objective (vals p) x = v)"
  using assms by (auto simp: lp_arguments_def feasible_negated optimal_negated)

lemma length_two: "length y = 2 \<longleftrightarrow> (\<exists>a b. y = [a, b])"
  by (auto simp: length_Suc_conv numeral_2_eq_2)

lemma feasible_two_goods:
  "feasible_ge [[Some 10, Some 5]] [Some m] [a, b] \<longleftrightarrow> 0 \<le> a \<and> 0 \<le> b \<and> m \<le> 10 * a + 5 * b"
  by (auto simp: feasible_ge_def)

lemma objective_two_goods: "objective [Some 1, Some 2] [a, b] = Some (a + 2 * b)"
  by (simp add: objective_def)

lemma two_goods_optimal_iff:
  "optimal_ge [Some 1, Some 2] [[Some 10, Some 5]] [Some 20] x \<longleftrightarrow> x = [2, 0]"
proof
  assume opt: "optimal_ge [Some 1, Some 2] [[Some 10, Some 5]] [Some 20] x"
  then obtain a b where x: "x = [a, b]"
    by (auto simp: optimal_ge_def length_Suc_conv)
  from opt have feas: "0 \<le> a" "0 \<le> b" "20 \<le> 10 * a + 5 * b"
    by (simp_all add: optimal_ge_def x feasible_two_goods)
  have "feasible_ge [[Some 10, Some 5]] [Some 20] [2, 0]"
    by (simp add: feasible_two_goods)
  with opt have "le_cell (objective [Some 1, Some 2] x) (objective [Some 1, Some 2] [2, 0])"
    by (simp add: optimal_ge_def)
  then have "a + 2 * b \<le> 2"
    by (simp add: x objective_two_goods)
  with feas have "a = 2" "b = 0" by linarith+
  then show "x = [2, 0]" by (simp add: x)
next
  assume x: "x = [2, 0]"
  have "le_cell (objective [Some 1, Some 2] [2, 0]) (objective [Some 1, Some 2] y)"
    if "length y = length [Some (1::real), Some 2]" "feasible_ge [[Some 10, Some 5]] [Some 20] y" for y
  proof -
    from that(1) obtain a b where y: "y = [a, b]" by (auto simp: length_Suc_conv)
    from that(2) have "0 \<le> a" "0 \<le> b" "20 \<le> 10 * a + 5 * b"
      by (simp_all add: y feasible_two_goods)
    then have "2 \<le> a + 2 * b" by linarith
    then show ?thesis by (simp add: y objective_two_goods)
  qed
  then show "optimal_ge [Some 1, Some 2] [[Some 10, Some 5]] [Some 20] x"
    unfolding optimal_ge_def x by (simp add: feasible_two_goods)
qed

theorem backend_problem_equivalent_witness:
  "lp_arguments (two_prices, two_goods, [(''N'', Some 20)])
     = ([Some 1, Some 2], [[Some (- 10), Some (- 5)]], [Some (- 20)]) \<and>
   optimal_ge (vals two_prices) (cells two_goods) (vals [(''N'', Some 20)]) [2, 0] \<and>
   optimal_ub [Some 1, Some 2] [[Some (- 10), Some (- 5)]] [Some (- 20)] [2, 0] \<and>
   feasible_ub [[Some (- 10), Some (- 5)]] [Some (- 20)] [2, 0] \<and>
   objective [Some 1, Some 2] [2, 0] = Some 2"
proof -
  have args: "lp_arguments (two_prices, two_goods, [(''N'', Some 20)])
     = ([Some 1, Some 2], [[Some (- 10), Some (- 5)]], [Some (- 20)])"
    by code_simp
  have opt: "optimal_ge (vals two_prices) (cells two_goods) (vals [(''N'', Some 20)]) [2, 0]"
    by (simp add: two_prices_def two_goods_def vals_def two_goods_optimal_iff)
  note eq = backend_problem_equivalent [OF args, of "[2, 0]" "Some 2"]
  from eq opt have ub: "optimal_ub [Some 1, Some 2] [[Some (- 10), Some (- 5)]] [Some (- 20)] [2, 0]"
    by blast
  from eq opt have feas: "feasible_ub [[Some (- 10), Some (- 5)]] [Some (- 20)] [2, 0]"
    by (auto simp: optimal_ge_def)
  have obj: "objective [Some 1, Some 2] [2, 0] = Some 2"
    by (simp add: objective_two_goods)
  from args opt ub feas obj show ?thesis by blast
qed

section \<open>Selecting and reindexing under unique labels\<close>

lemma distinct_positions: "distinct (positions ls k)"
  by (simp add: positions_def)

lemma distinct_singleton_set:
  assumes "distinct xs" "set xs = {a}"
  shows "xs = [a]"
proof (cases xs)
  case Nil
  with assms(2) show ?thesis by simp
next
  case (Cons x ys)
  with assms have "x = a" "x \<notin> set ys" "set ys \<subseteq> {a}" by auto
  then have "ys = []" by (cases ys) auto
  with Cons \<open>x = a\<close> show ?thesis by simp
qed

lemma positions_distinct:
  assumes "distinct ls" "k \<in> set ls"
  obtains i where "positions ls k = [i]" "i < length ls" "ls ! i = k"
proof -
  from assms(2) obtain i where i: "i < length ls" "ls ! i = k"
    by (auto simp: in_set_conv_nth)
  have "set (positions ls k) = {i}"
    using assms(1) i by (auto simp: set_positions nth_eq_iff_index_eq)
  moreover have "distinct (positions ls k)" by (rule distinct_positions)
  ultimately have "positions ls k = [i]"
    by (intro distinct_singleton_set)
  with i show thesis by (auto intro: that)
qed

lemma indexer_Nil [simp]: "indexer ls [] = []"
  by (simp add: indexer_def)

lemma indexer_Cons [simp]: "indexer ls (k # ks) = positions ls k @ indexer ls ks"
  by (simp add: indexer_def)

lemma indexer_distinct_both:
  assumes "distinct ls" "set ks \<subseteq> set ls"
  shows "indexer ls ks = map (\<lambda>k. hd (positions ls k)) ks \<and> map ((!) ls) (indexer ls ks) = ks"
  using assms(2)
proof (induction ks)
  case Nil
  show ?case by simp
next
  case (Cons k ks)
  from Cons.prems have "k \<in> set ls" by simp
  with assms(1) obtain i where i: "positions ls k = [i]" "ls ! i = k"
    by (rule positions_distinct)
  from Cons.prems have "set ks \<subseteq> set ls" by simp
  then have IH: "indexer ls ks = map (\<lambda>k. hd (positions ls k)) ks \<and> map ((!) ls) (indexer ls ks) = ks"
    by (rule Cons.IH)
  then have IH1: "indexer ls ks = map (\<lambda>k. hd (positions ls k)) ks"
    and IH2: "map ((!) ls) (indexer ls ks) = ks" by blast+
  show ?case
  proof (intro conjI)
    show "indexer ls (k # ks) = map (\<lambda>k. hd (positions ls k)) (k # ks)"
      by (simp add: i IH1)
    show "map ((!) ls) (indexer ls (k # ks)) = k # ks"
      by (simp add: i IH2)
  qed
qed

lemma indexer_distinct:
  assumes "distinct ls" "set ks \<subseteq> set ls"
  shows "indexer ls ks = map (\<lambda>k. hd (positions ls k)) ks"
    and "map ((!) ls) (indexer ls ks) = ks"
  using indexer_distinct_both[OF assms] by blast+

lemma row_or_nan_present:
  assumes "distinct (index df)" "k \<in> set (index df)"
  shows "row_or_nan df k = cells df ! hd (positions (index df) k)"
proof -
  from assms obtain i where "positions (index df) k = [i]"
    by (rule positions_distinct)
  then show ?thesis by (simp add: row_or_nan_def)
qed

lemma row_or_nan_absent:
  "k \<notin> set (index df) \<Longrightarrow> row_or_nan df k = replicate (length (columns df)) None"
  by (simp add: row_or_nan_def positions_Nil_iff[THEN iffD2])

lemma getitem_columns_distinct:
  assumes "distinct (columns df)" "set ks \<subseteq> set (columns df)"
  shows "getitem_columns df ks =
           Inr \<lparr>index = index df, columns = ks,
                cells = map (\<lambda>r. map (\<lambda>g. r ! hd (positions (columns df) g)) ks) (cells df)\<rparr>"
  using assms indexer_distinct[OF assms]
  by (simp add: getitem_columns_def comp_def)

lemma loc_rows_distinct:
  assumes "distinct (index df)" "set ks \<subseteq> set (index df)"
  shows "loc_rows df ks =
           Inr \<lparr>index = ks, columns = columns df, cells = map (row_or_nan df) ks\<rparr>"
proof -
  have "map ((!) (cells df)) (indexer (index df) ks) = map (row_or_nan df) ks"
    using assms by (auto simp: indexer_distinct(1)[OF assms] row_or_nan_present)
  then show ?thesis
    using assms indexer_distinct(2)[OF assms] by (simp add: loc_rows_def)
qed

lemma select_rows:
  assumes "distinct (index df)"
  shows "ebind (loc_rows df (intersection (index df) ks)) (\<lambda>d. reindex_rows d ks) =
           Inr \<lparr>index = ks, columns = columns df, cells = map (row_or_nan df) ks\<rparr>"
proof -
  let ?ks' = "intersection (index df) ks"
  let ?d = "\<lparr>index = ?ks', columns = columns df, cells = map (row_or_nan df) ?ks'\<rparr>"
  have loc: "loc_rows df ?ks' = Inr ?d"
    by (rule loc_rows_distinct[OF assms]) simp
  show ?thesis
  proof (cases "?ks' = ks")
    case True
    show ?thesis using loc unfolding True by (simp add: reindex_rows_def)
  next
    case False
    have "row_or_nan ?d k = row_or_nan df k" if "k \<in> set ks" for k
    proof (cases "k \<in> set (index df)")
      case True
      with that have "k \<in> set ?ks'" by simp
      then obtain j where j: "positions ?ks' k = [j]" "j < length ?ks'" "?ks' ! j = k"
        using positions_distinct[OF distinct_intersection] by metis
      then show ?thesis by (simp add: row_or_nan_def)
    next
      case False
      then have "k \<notin> set ?ks'" by simp
      then have "row_or_nan ?d k = replicate (length (columns df)) None"
        using row_or_nan_absent[of k ?d] by simp
      with False show ?thesis by (simp add: row_or_nan_absent)
    qed
    then have "map (row_or_nan ?d) ks = map (row_or_nan df) ks" by simp
    with False show ?thesis by (simp add: loc reindex_rows_def)
  qed
qed

section \<open>The builder under unique labels\<close>

lemma getitem_series_use:
  obtains p where "getitem_series s (intersection (keys s) cols) = Inr p"
    "set (keys p) \<subseteq> set cols"
proof -
  let ?p = "map ((!) s) (indexer (keys s) (intersection (keys s) cols))"
  have eq: "getitem_series s (intersection (keys s) cols) = Inr ?p"
    by (simp add: getitem_series_def)
  have "set ?p = {e \<in> set s. fst e \<in> set (intersection (keys s) cols)}"
    by (rule set_getitem_series[OF eq])
  then have "set (keys ?p) \<subseteq> set cols"
    by (auto simp: keys_def)
  with eq show thesis by (rule that)
qed

lemma fillna_simps [simp]:
  "index (fillna v df) = index df" "columns (fillna v df) = columns df"
  "cells (fillna v df) = map (map (\<lambda>c. case c of None \<Rightarrow> Some v | Some u \<Rightarrow> Some u)) (cells df)"
  by (simp_all add: fillna_def)

lemma neg_frame_simps [simp]:
  "index (neg_frame df) = index df" "columns (neg_frame df) = columns df"
  by (simp_all add: neg_frame_def)

lemma assemble_distinct:
  assumes "distinct (index FoodNutrients)" "distinct (columns FoodNutrients)"
  obtains p where
    "getitem_series (dropna p0) (intersection (keys (dropna p0)) (columns FoodNutrients)) = Inr p"
    "set (keys p) \<subseteq> set (columns FoodNutrients)"
    "\<And>Aall. Aall = fillna 0 \<lparr>index = index FoodNutrients, columns = keys p,
         cells = map (\<lambda>r. map (\<lambda>g. r ! hd (positions (columns FoodNutrients) g)) (keys p))
                   (cells FoodNutrients)\<rparr> \<Longrightarrow>
     assemble FoodNutrients p0 dietmin dietmax
       = Inr (p, \<lparr>index = keys dietmin @ keys dietmax, columns = keys p,
                  cells = map (row_or_nan Aall) (keys dietmin) @
                          map (\<lambda>k. map neg (row_or_nan Aall k)) (keys dietmax)\<rparr>,
              dietmin @ neg_series dietmax)"
proof -
  obtain p where p: "getitem_series (dropna p0) (intersection (keys (dropna p0)) (columns FoodNutrients)) = Inr p"
    and sub: "set (keys p) \<subseteq> set (columns FoodNutrients)"
    by (rule getitem_series_use)
  define sel where "sel = \<lparr>index = index FoodNutrients, columns = keys p,
         cells = map (\<lambda>r. map (\<lambda>g. r ! hd (positions (columns FoodNutrients) g)) (keys p))
                   (cells FoodNutrients)\<rparr>"
  define Aall where "Aall = fillna 0 sel"
  have sel: "getitem_columns FoodNutrients (keys p) = Inr sel"
    unfolding sel_def by (rule getitem_columns_distinct[OF assms(2) sub])
  have dA: "distinct (index Aall)" "columns Aall = keys p"
    using assms(1) by (simp_all add: Aall_def sel_def)
  define Amin where "Amin = \<lparr>index = keys dietmin, columns = keys p, cells = map (row_or_nan Aall) (keys dietmin)\<rparr>"
  define Amax where "Amax = \<lparr>index = keys dietmax, columns = keys p, cells = map (row_or_nan Aall) (keys dietmax)\<rparr>"
  have mn: "ebind (loc_rows Aall (intersection (index Aall) (keys dietmin))) (\<lambda>d. reindex_rows d (keys dietmin)) = Inr Amin"
    unfolding Amin_def dA(2)[symmetric] by (rule select_rows[OF dA(1)])
  have mx: "ebind (loc_rows Aall (intersection (index Aall) (keys dietmax))) (\<lambda>d. reindex_rows d (keys dietmax)) = Inr Amax"
    unfolding Amax_def dA(2)[symmetric] by (rule select_rows[OF dA(1)])
  define A0 where "A0 = concat_frames Amin (neg_frame Amax)"
  have A0: "A0 = \<lparr>index = keys dietmin @ keys dietmax, columns = keys p,
                  cells = map (row_or_nan Aall) (keys dietmin) @
                          map (\<lambda>k. map neg (row_or_nan Aall k)) (keys dietmax)\<rparr>"
    by (simp add: A0_def concat_frames_def Amin_def Amax_def neg_frame_def comp_def)
  have rc: "reindex_columns A0 (keys p) = Inr A0"
    by (simp add: reindex_columns_def A0)
  have rr: "reindex_rows A0 (keys (dietmin @ neg_series dietmax)) = Inr A0"
    by (simp add: reindex_rows_def A0)
  have chain: "assemble FoodNutrients p0 dietmin dietmax =
      ebind (ebind (loc_rows Aall (intersection (index Aall) (keys dietmin))) (\<lambda>d. reindex_rows d (keys dietmin))) (\<lambda>Amin.
      ebind (ebind (loc_rows Aall (intersection (index Aall) (keys dietmax))) (\<lambda>d. reindex_rows d (keys dietmax))) (\<lambda>Amax.
      ebind (reindex_columns (concat_frames Amin (neg_frame Amax)) (keys p)) (\<lambda>A1.
      ebind (reindex_rows A1 (keys (dietmin @ neg_series dietmax))) (\<lambda>A.
      Inr (p, A, dietmin @ neg_series dietmax)))))"
    unfolding assemble_def Let_def p sel Aall_def[symmetric] ebind_Inr
    by (simp add: ebind_def split: sum.splits)
  have "assemble FoodNutrients p0 dietmin dietmax = Inr (p, A0, dietmin @ neg_series dietmax)"
    unfolding chain mn mx ebind_Inr A0_def[symmetric] rc rr ..
  then show thesis
    using p sub that[of ] unfolding A0 Aall_def sel_def by blast
qed

lemma cell_at_present:
  assumes "distinct (index df)" "distinct (columns df)" "n \<in> set (index df)" "g \<in> set (columns df)"
  shows "cell_at df n g = cells df ! hd (positions (index df) n) ! hd (positions (columns df) g)"
proof -
  from assms(1,3) obtain i where "positions (index df) n = [i]" by (rule positions_distinct)
  moreover from assms(2,4) obtain j where "positions (columns df) g = [j]" by (rule positions_distinct)
  ultimately show ?thesis by (simp add: cell_at_def)
qed

lemma build_None [simp]:
  "build FoodNutrients p0 dietmin dietmax None = assemble FoodNutrients p0 dietmin dietmax"
  by (cases "assemble FoodNutrients p0 dietmin dietmax")
     (auto simp: build_def add_max_weight_def)

lemma feasible_ge_append:
  "length A1 = length b1 \<Longrightarrow>
   feasible_ge (A1 @ A2) (b1 @ b2) x \<longleftrightarrow> feasible_ge A1 b1 x \<and> feasible_ge A2 b2 x"
  by (auto simp: feasible_ge_def)

lemma zip_map_same: "zip (map g xs) (map h xs) = map (\<lambda>x. (g x, h x)) xs"
  by (induction xs) simp_all

lemma feasible_ge_min_rows:
  "feasible_ge (map f (keys s)) (vals s) x \<longleftrightarrow>
     list_all (\<lambda>v. 0 \<le> v) x \<and> list_all (\<lambda>e. le_cell (snd e) (dot (f (fst e)) (map Some x))) s"
  by (simp add: feasible_ge_def keys_def vals_def zip_map_same list_all_iff)

lemma feasible_ge_max_rows:
  "feasible_ge (map (\<lambda>n. map neg (f n)) (keys s)) (map neg (vals s)) x \<longleftrightarrow>
     list_all (\<lambda>v. 0 \<le> v) x \<and> list_all (\<lambda>e. le_cell (dot (f (fst e)) (map Some x)) (snd e)) s"
  by (simp add: feasible_ge_def keys_def vals_def zip_map_same list_all_iff dot_neg le_cell_neg)

lemma vals_append [simp]: "vals (s @ t) = vals s @ vals t"
  by (simp add: vals_def)

lemma map_neg_replicate_None [simp]: "map neg (replicate n None) = replicate n None"
  by simp

lemma None_in_map_neg [simp]: "None \<in> set (map neg r) \<longleftrightarrow> None \<in> set r"
  by (auto simp: neg_def image_iff)



lemma None_in_neg_image [simp]: "None \<in> neg ` S \<longleftrightarrow> None \<in> S"
  by (auto simp: neg_def image_iff)

section \<open>Repeated identifiers\<close>

lemma nth_positions:
  "map ((!) s) (positions (keys s) k) = filter (\<lambda>e. fst e = k) s"
proof -
  have "filter (\<lambda>e. fst e = k) s = filter (\<lambda>e. fst e = k) (map ((!) s) [0..<length s])"
    by (simp add: map_nth)
  also have "\<dots> = map ((!) s) (filter (\<lambda>i. fst (s ! i) = k) [0..<length s])"
    by (simp add: filter_map comp_def)
  also have "filter (\<lambda>i. fst (s ! i) = k) [0..<length s] = positions (keys s) k"
    unfolding positions_def keys_def by (rule filter_cong) simp_all
  finally show ?thesis by simp
qed

lemma mset_filter_disj:
  assumes "\<And>x. x \<in> set xs \<Longrightarrow> \<not> (P x \<and> Q x)"
  shows "mset (filter (\<lambda>x. P x \<or> Q x) xs) = mset (filter P xs) + mset (filter Q xs)"
  using assms by (induction xs) auto

lemma mset_nth_indexer:
  assumes "distinct ks"
  shows "mset (map ((!) s) (indexer (keys s) ks)) = mset (filter (\<lambda>e. fst e \<in> set ks) s)"
  using assms
proof (induction ks)
  case Nil
  show ?case by simp
next
  case (Cons k ks)
  have "mset (filter (\<lambda>e. fst e \<in> set (k # ks)) s)
          = mset (filter (\<lambda>e. fst e = k \<or> fst e \<in> set ks) s)"
    by simp
  also have "\<dots> = mset (filter (\<lambda>e. fst e = k) s) + mset (filter (\<lambda>e. fst e \<in> set ks) s)"
    using Cons.prems by (intro mset_filter_disj) auto
  finally show ?case
    using Cons by (simp add: nth_positions)
qed

lemma mset_usable:
  assumes "getitem_series (dropna p0) (intersection (keys (dropna p0)) cols) = Inr p"
  shows "mset p = mset (filter (\<lambda>e. snd e \<noteq> None \<and> fst e \<in> set cols) p0)"
proof -
  let ?p1 = "dropna p0"
  from assms have "p = map ((!) ?p1) (indexer (keys ?p1) (intersection (keys ?p1) cols))"
    by (auto simp: getitem_series_def split: if_splits)
  then have "mset p = mset (map ((!) ?p1) (indexer (keys ?p1) (intersection (keys ?p1) cols)))"
    by (rule arg_cong)
  also have "\<dots> = mset (filter (\<lambda>e. fst e \<in> set (intersection (keys ?p1) cols)) ?p1)"
    by (rule mset_nth_indexer) (rule distinct_intersection)
  also have "filter (\<lambda>e. fst e \<in> set (intersection (keys ?p1) cols)) ?p1
               = filter (\<lambda>e. snd e \<noteq> None \<and> fst e \<in> set cols) p0"
    by (auto simp: dropna_def keys_def intro!: filter_cong)
  finally show ?thesis .
qed

lemma positions_nonempty: "k \<in> set ls \<Longrightarrow> positions ls k \<noteq> []"
  by (simp add: positions_Nil_iff)

lemma nth_positions_labels: "map ((!) ls) (positions ls k) = replicate (length (positions ls k)) k"
  by (rule nth_equalityI) (auto simp: positions_def dest!: nth_mem)

lemma length_indexer_ge:
  assumes "set ks \<subseteq> set ls"
  shows "length ks \<le> length (indexer ls ks)"
  using assms
proof (induction ks)
  case Nil
  show ?case by simp
next
  case (Cons k ks)
  then have "positions ls k \<noteq> []" by (simp add: positions_nonempty)
  then have "1 \<le> length (positions ls k)" by (cases "positions ls k") simp_all
  with Cons show ?case by simp
qed

lemma length_indexer_gt:
  assumes "set ks \<subseteq> set ls" "k \<in> set ks" "1 < length (positions ls k)"
  shows "length ks < length (indexer ls ks)"
  using assms(1,2)
proof (induction ks)
  case Nil
  then show ?case by simp
next
  case (Cons a ks)
  from Cons.prems(1) have sub: "set ks \<subseteq> set ls" and a: "a \<in> set ls" by simp_all
  show ?case
  proof (cases "a = k")
    case True
    with assms(3) length_indexer_ge[OF sub] show ?thesis by simp
  next
    case False
    with Cons.prems(2) have "k \<in> set ks" by simp
    with Cons.IH sub have "length ks < length (indexer ls ks)" by simp
    moreover from a have "1 \<le> length (positions ls a)"
      using positions_nonempty[of a ls] by (cases "positions ls a") simp_all
    ultimately show ?thesis by simp
  qed
qed

lemma indexer_append [simp]: "indexer ls (xs @ ys) = indexer ls xs @ indexer ls ys"
  by (simp add: indexer_def)

lemma not_distinct_indexer:
  assumes "k \<in> set ks" "1 < length (positions ls k)"
  shows "\<not> distinct (map ((!) ls) (indexer ls ks))"
proof -
  from assms(1) obtain xs ys where ks: "ks = xs @ k # ys"
    by (auto simp: in_set_conv_decomp)
  from assms(2) obtain m where m: "length (positions ls k) = Suc (Suc m)"
    by (cases "length (positions ls k)"; cases "length (positions ls k) - 1") auto
  have "\<not> distinct (map ((!) ls) (positions ls k))"
    by (simp add: nth_positions_labels m)
  then show ?thesis by (simp add: ks)
qed

lemma reindex_rows_Inl: "reindex_rows df t = Inl e \<Longrightarrow> e = duplicate_axis"
  by (auto simp: reindex_rows_def split: if_splits)

lemma reindex_columns_Inl: "reindex_columns df t = Inl e \<Longrightarrow> e = duplicate_axis"
  by (auto simp: reindex_columns_def split: if_splits)

lemma reindex_rows_ok: "reindex_rows df t = Inr r \<Longrightarrow> index df = t \<or> distinct (index df)"
  by (auto simp: reindex_rows_def split: if_splits)

lemma reindex_columns_ok: "reindex_columns df t = Inr r \<Longrightarrow> columns df = t \<or> distinct (columns df)"
  by (auto simp: reindex_columns_def split: if_splits)

lemma assemble_chain:
  obtains p Amin0 Amax0 where
    "getitem_series (dropna p0) (intersection (keys (dropna p0)) (columns FoodNutrients)) = Inr p"
    "set (keys p) \<subseteq> set (columns FoodNutrients)"
    "columns Amin0 = map ((!) (columns FoodNutrients)) (indexer (columns FoodNutrients) (keys p))"
    "index Amin0 = map ((!) (index FoodNutrients))
                     (indexer (index FoodNutrients) (intersection (index FoodNutrients) (keys dietmin)))"
    "index Amax0 = map ((!) (index FoodNutrients))
                     (indexer (index FoodNutrients) (intersection (index FoodNutrients) (keys dietmax)))"
    "assemble FoodNutrients p0 dietmin dietmax =
       ebind (reindex_rows Amin0 (keys dietmin)) (\<lambda>Amin.
       ebind (reindex_rows Amax0 (keys dietmax)) (\<lambda>Amax.
       ebind (reindex_columns (concat_frames Amin (neg_frame Amax)) (keys p)) (\<lambda>A1.
       ebind (reindex_rows A1 (keys (dietmin @ neg_series dietmax))) (\<lambda>A.
       Inr (p, A, dietmin @ neg_series dietmax)))))"
proof -
  obtain p where p: "getitem_series (dropna p0) (intersection (keys (dropna p0)) (columns FoodNutrients)) = Inr p"
    and sub: "set (keys p) \<subseteq> set (columns FoodNutrients)"
    by (rule getitem_series_use)
  define sel where "sel = \<lparr>index = index FoodNutrients,
      columns = map ((!) (columns FoodNutrients)) (indexer (columns FoodNutrients) (keys p)),
      cells = map (\<lambda>r. map ((!) r) (indexer (columns FoodNutrients) (keys p))) (cells FoodNutrients)\<rparr>"
  have sel: "getitem_columns FoodNutrients (keys p) = Inr sel"
    using sub by (simp add: getitem_columns_def Let_def sel_def)
  define Aall where "Aall = fillna 0 sel"
  have Aall: "index Aall = index FoodNutrients" "columns Aall = columns sel"
    by (simp_all add: Aall_def sel_def)
  define pick where "pick ks = \<lparr>index = map ((!) (index Aall)) (indexer (index Aall) (intersection (index Aall) ks)),
      columns = columns Aall,
      cells = map ((!) (cells Aall)) (indexer (index Aall) (intersection (index Aall) ks))\<rparr>" for ks
  have pick: "loc_rows Aall (intersection (index Aall) ks) = Inr (pick ks)" for ks
    by (simp add: loc_rows_def Let_def pick_def)
  have chain: "assemble FoodNutrients p0 dietmin dietmax =
       ebind (reindex_rows (pick (keys dietmin)) (keys dietmin)) (\<lambda>Amin.
       ebind (reindex_rows (pick (keys dietmax)) (keys dietmax)) (\<lambda>Amax.
       ebind (reindex_columns (concat_frames Amin (neg_frame Amax)) (keys p)) (\<lambda>A1.
       ebind (reindex_rows A1 (keys (dietmin @ neg_series dietmax))) (\<lambda>A.
       Inr (p, A, dietmin @ neg_series dietmax)))))"
    unfolding assemble_def Let_def p ebind_Inr sel Aall_def[symmetric] pick ..
  show thesis
  proof (rule that[OF p sub _ _ _ chain])
    show "columns (pick (keys dietmin)) = map ((!) (columns FoodNutrients)) (indexer (columns FoodNutrients) (keys p))"
      by (simp add: pick_def Aall sel_def)
    show "index (pick (keys dietmin)) = map ((!) (index FoodNutrients))
                     (indexer (index FoodNutrients) (intersection (index FoodNutrients) (keys dietmin)))"
      by (simp add: pick_def Aall)
    show "index (pick (keys dietmax)) = map ((!) (index FoodNutrients))
                     (indexer (index FoodNutrients) (intersection (index FoodNutrients) (keys dietmax)))"
      by (simp add: pick_def Aall)
  qed
qed

lemma assemble_Inl:
  assumes "assemble FoodNutrients p0 dietmin dietmax = Inl e"
  shows "e = duplicate_axis"
proof (rule assemble_chain[of p0 FoodNutrients dietmin dietmax], goal_cases)
  case (1 p Amin0 Amax0)
  from assms show ?case
    unfolding 1(6)
    by (auto simp: ebind_eq_Inl dest: reindex_rows_Inl reindex_columns_Inl)
qed

lemma build_Inl:
  assumes "build FoodNutrients p0 dietmin dietmax max_weight = Inl e"
  shows "e = duplicate_axis \<or> e = no_defined_columns"
  using assms
  by (auto simp: build_def add_max_weight_def ebind_eq_Inl loc_set_row_def Let_def
           dest: assemble_Inl split: option.splits if_splits)

lemma duplicate_column_raises:
  assumes "g \<in> set (keys (dropna p0))" "1 < length (positions (columns FoodNutrients) g)"
  shows "assemble FoodNutrients p0 dietmin dietmax = Inl duplicate_axis"
proof (rule assemble_chain[of p0 FoodNutrients dietmin dietmax], goal_cases)
  case (1 p Amin0 Amax0)
  let ?cs = "map ((!) (columns FoodNutrients)) (indexer (columns FoodNutrients) (keys p))"
  from assms(2) have gc: "g \<in> set (columns FoodNutrients)"
    using positions_Nil_iff[of "columns FoodNutrients" g] by auto
  from set_getitem_series[OF 1(1)] assms(1) gc have gp: "g \<in> set (keys p)"
    by (force simp: keys_def)
  have "length (keys p) < length ?cs"
    using length_indexer_gt[OF 1(2) gp assms(2)] by simp
  then have ne: "?cs \<noteq> keys p" by (metis less_irrefl)
  have nd: "\<not> distinct ?cs" by (rule not_distinct_indexer[OF gp assms(2)])
  have cols: "reindex_columns (concat_frames Amin (neg_frame Amax)) (keys p) = Inl duplicate_axis"
    if "reindex_rows Amin0 (keys dietmin) = Inr Amin" for Amin Amax
    using reindex_rows_Inr(1)[OF that] ne nd
    by (simp add: reindex_columns_def concat_frames_def 1(3))
  show ?case
  proof (cases "reindex_rows Amin0 (keys dietmin)")
    case (Inl e)
    then show ?thesis using reindex_rows_Inl[OF Inl] by (simp add: 1(6))
  next
    case mn: (Inr Amin)
    show ?thesis
    proof (cases "reindex_rows Amax0 (keys dietmax)")
      case (Inl e)
      then show ?thesis using reindex_rows_Inl[OF Inl] mn by (simp add: 1(6))
    next
      case (Inr Amax)
      then show ?thesis using mn cols[OF mn] by (simp add: 1(6))
    qed
  qed
qed

lemma duplicate_row_index:
  assumes "n \<in> set ks" "1 < length (positions ls n)" "distinct ks"
  shows "map ((!) ls) (indexer ls (intersection ls ks)) \<noteq> ks"
    and "\<not> distinct (map ((!) ls) (indexer ls (intersection ls ks)))"
proof -
  from assms(2) have "n \<in> set ls"
    using positions_Nil_iff[of ls n] by auto
  with assms(1) have "n \<in> set (intersection ls ks)" by simp
  then show "\<not> distinct (map ((!) ls) (indexer ls (intersection ls ks)))"
    by (rule not_distinct_indexer) (rule assms(2))
  with assms(3) show "map ((!) ls) (indexer ls (intersection ls ks)) \<noteq> ks" by auto
qed

lemma duplicate_row_raises:
  assumes "distinct (keys dietmin) \<and> (\<exists>n\<in>set (keys dietmin). 1 < length (positions (index FoodNutrients) n))
         \<or> distinct (keys dietmax) \<and> (\<exists>n\<in>set (keys dietmax). 1 < length (positions (index FoodNutrients) n))"
  shows "assemble FoodNutrients p0 dietmin dietmax = Inl duplicate_axis"
proof (rule assemble_chain[of p0 FoodNutrients dietmin dietmax], goal_cases)
  case (1 p Amin0 Amax0)
  from assms show ?case
  proof
    assume "distinct (keys dietmin) \<and> (\<exists>n\<in>set (keys dietmin). 1 < length (positions (index FoodNutrients) n))"
    then obtain n where "distinct (keys dietmin)" "n \<in> set (keys dietmin)"
      "1 < length (positions (index FoodNutrients) n)" by blast
    from duplicate_row_index[OF this(2,3,1)]
    have "reindex_rows Amin0 (keys dietmin) = Inl duplicate_axis"
      by (simp add: reindex_rows_def 1(4))
    then show ?thesis by (simp add: 1(6))
  next
    assume "distinct (keys dietmax) \<and> (\<exists>n\<in>set (keys dietmax). 1 < length (positions (index FoodNutrients) n))"
    then obtain n where "distinct (keys dietmax)" "n \<in> set (keys dietmax)"
      "1 < length (positions (index FoodNutrients) n)" by blast
    from duplicate_row_index[OF this(2,3,1)]
    have mx: "reindex_rows Amax0 (keys dietmax) = Inl duplicate_axis"
      by (simp add: reindex_rows_def 1(5))
    show ?thesis
    proof (cases "reindex_rows Amin0 (keys dietmin)")
      case (Inl e)
      then show ?thesis using reindex_rows_Inl[OF Inl] by (simp add: 1(6))
    next
      case (Inr Amin)
      then show ?thesis using mx by (simp add: 1(6))
    qed
  qed
qed

lemma build_assemble_Inl:
  "assemble FoodNutrients p0 dietmin dietmax = Inl e \<Longrightarrow>
   build FoodNutrients p0 dietmin dietmax max_weight = Inl e"
  by (simp add: build_def)

text \<open>
  Claim C9, as amended. The builder has no check for repeated identifiers and no error
  of its own for them. The only errors it can raise are the two \<open>ValueError\<close>s of
  pandas: the one of reindexing an axis with repeated labels, and the one of the cap
  step on a frame without columns. Reindexing raises, before the solver is called,
  when a priced good labels more than one catalogue column, and when a nutrient of a
  bound series with unique keys labels more than one catalogue row. Repeated price keys
  and repeated bound keys raise nothing: with unique catalogue labels the builder
  returns a system that has one column for every price entry that is not NaN and whose
  good is in the catalogue, and one row for every bound entry.
\<close>

theorem duplicate_identifiers:
  "(distinct (index FoodNutrients) \<and> distinct (columns FoodNutrients) \<longrightarrow>
      (\<exists>p A b. build FoodNutrients p0 dietmin dietmax None = Inr (p, A, b) \<and>
               mset p = mset (filter (\<lambda>e. snd e \<noteq> None \<and> fst e \<in> set (columns FoodNutrients)) p0) \<and>
               columns A = keys p \<and>
               index A = keys dietmin @ keys dietmax \<and>
               length (cells A) = length dietmin + length dietmax)) \<and>
   (\<forall>e. build FoodNutrients p0 dietmin dietmax max_weight = Inl e \<longrightarrow>
          e = duplicate_axis \<or> e = no_defined_columns) \<and>
   ((\<exists>g\<in>set (keys (dropna p0)). 1 < length (positions (columns FoodNutrients) g)) \<longrightarrow>
      build FoodNutrients p0 dietmin dietmax max_weight = Inl duplicate_axis) \<and>
   (distinct (keys dietmin) \<and>
    (\<exists>n\<in>set (keys dietmin). 1 < length (positions (index FoodNutrients) n)) \<longrightarrow>
      build FoodNutrients p0 dietmin dietmax max_weight = Inl duplicate_axis) \<and>
   (distinct (keys dietmax) \<and>
    (\<exists>n\<in>set (keys dietmax). 1 < length (positions (index FoodNutrients) n)) \<longrightarrow>
      build FoodNutrients p0 dietmin dietmax max_weight = Inl duplicate_axis)"
proof (intro conjI impI allI)
  assume d: "distinct (index FoodNutrients) \<and> distinct (columns FoodNutrients)"
  then have d1: "distinct (index FoodNutrients)" and d2: "distinct (columns FoodNutrients)"
    by simp_all
  show "\<exists>p A b. build FoodNutrients p0 dietmin dietmax None = Inr (p, A, b) \<and>
               mset p = mset (filter (\<lambda>e. snd e \<noteq> None \<and> fst e \<in> set (columns FoodNutrients)) p0) \<and>
               columns A = keys p \<and>
               index A = keys dietmin @ keys dietmax \<and>
               length (cells A) = length dietmin + length dietmax"
  proof (rule assemble_distinct[OF d1 d2, of p0 dietmin dietmax], goal_cases)
    case (1 p)
    from 1(3)[OF refl] mset_usable[OF 1(1)] show ?case
      by (simp add: keys_def)
  qed
next
  fix e
  assume "build FoodNutrients p0 dietmin dietmax max_weight = Inl e"
  then show "e = duplicate_axis \<or> e = no_defined_columns" by (rule build_Inl)
next
  assume "\<exists>g\<in>set (keys (dropna p0)). 1 < length (positions (columns FoodNutrients) g)"
  then obtain g where "g \<in> set (keys (dropna p0))" "1 < length (positions (columns FoodNutrients) g)"
    by blast
  then have "assemble FoodNutrients p0 dietmin dietmax = Inl duplicate_axis"
    by (rule duplicate_column_raises)
  then show "build FoodNutrients p0 dietmin dietmax max_weight = Inl duplicate_axis"
    by (rule build_assemble_Inl)
next
  assume "distinct (keys dietmin) \<and>
    (\<exists>n\<in>set (keys dietmin). 1 < length (positions (index FoodNutrients) n))"
  then have "assemble FoodNutrients p0 dietmin dietmax = Inl duplicate_axis"
    by (intro duplicate_row_raises disjI1)
  then show "build FoodNutrients p0 dietmin dietmax max_weight = Inl duplicate_axis"
    by (rule build_assemble_Inl)
next
  assume "distinct (keys dietmax) \<and>
    (\<exists>n\<in>set (keys dietmax). 1 < length (positions (index FoodNutrients) n))"
  then have "assemble FoodNutrients p0 dietmin dietmax = Inl duplicate_axis"
    by (intro duplicate_row_raises disjI2)
  then show "build FoodNutrients p0 dietmin dietmax max_weight = Inl duplicate_axis"
    by (rule build_assemble_Inl)
qed

theorem duplicate_identifiers_witness:
  "distinct (index two_goods) \<and> distinct (columns two_goods) \<and>
   (\<exists>p A b. build two_goods twice_priced twice_bounded [] None = Inr (p, A, b) \<and>
            mset p = mset (filter (\<lambda>e. snd e \<noteq> None \<and> fst e \<in> set (columns two_goods)) twice_priced) \<and>
            columns A = keys p \<and>
            index A = keys twice_bounded @ keys [] \<and>
            length (cells A) = length twice_bounded + length ([] :: series)) \<and>
   ''A'' \<in> set (keys (dropna two_prices)) \<and>
   1 < length (positions (columns two_columns_A) ''A'') \<and>
   build two_columns_A two_prices [(''N'', Some 20)] [] None = Inl duplicate_axis \<and>
   distinct (keys [(''N'', Some 20)]) \<and>
   ''N'' \<in> set (keys [(''N'', Some 20)]) \<and>
   1 < length (positions (index two_rows_N) ''N'') \<and>
   build two_rows_N two_prices [(''N'', Some 20)] [] None = Inl duplicate_axis"
proof -
  have h1: "distinct (index two_goods) \<and> distinct (columns two_goods)" by code_simp
  have h2: "''A'' \<in> set (keys (dropna two_prices))" by code_simp
  have h3: "1 < length (positions (columns two_columns_A) ''A'')" by code_simp
  have h4: "distinct (keys [(''N'', Some 20)])" by code_simp
  have h5: "''N'' \<in> set (keys [(''N'', Some 20)])" by code_simp
  have h6: "1 < length (positions (index two_rows_N) ''N'')" by code_simp
  from h1 duplicate_identifiers [of two_goods twice_priced twice_bounded "[]" None]
  have a: "\<exists>p A b. build two_goods twice_priced twice_bounded [] None = Inr (p, A, b) \<and>
            mset p = mset (filter (\<lambda>e. snd e \<noteq> None \<and> fst e \<in> set (columns two_goods)) twice_priced) \<and>
            columns A = keys p \<and>
            index A = keys twice_bounded @ keys [] \<and>
            length (cells A) = length twice_bounded + length ([] :: series)"
    by blast
  from h2 h3 duplicate_identifiers [of two_columns_A two_prices "[(''N'', Some 20)]" "[]" None]
  have c: "build two_columns_A two_prices [(''N'', Some 20)] [] None = Inl duplicate_axis"
    by blast
  from h4 h5 h6 duplicate_identifiers [of two_rows_N two_prices "[(''N'', Some 20)]" "[]" None]
  have d: "build two_rows_N two_prices [(''N'', Some 20)] [] None = Inl duplicate_axis"
    by blast
  from h1 a h2 h3 c h4 h5 h6 d show ?thesis by blast
qed

text \<open>
  The claim as it stands fails for a good that is priced twice: the builder raises
  nothing and returns a system in which the good has two columns, one per price.
\<close>

theorem duplicate_identifiers_counterexample:
  "build two_goods twice_priced [(''N'', Some 20)] [] None
     = Inr ([(''A'', Some 1), (''A'', Some 3), (''B'', Some 2)],
            \<lparr>index = [''N''], columns = [''A'', ''A'', ''B''],
             cells = [[Some 10, Some 10, Some 5]]\<rparr>,
            [(''N'', Some 20)]) \<and>
   \<not> distinct (keys twice_priced)"
  by code_simp

section \<open>Constraining nutrients\<close>

lemma abs_cell_simps [simp]: "abs_cell (Some u) = Some \<bar>u\<bar>" "abs_cell None = None"
  by (simp_all add: abs_cell_def)

lemma sub_cell_simps [simp]:
  "sub_cell (Some u) (Some v) = Some (u - v)" "sub_cell None b = None" "sub_cell a None = None"
  by (simp_all add: sub_cell_def split: option.splits)

lemma lt_cell_simps [simp]:
  "lt_cell (Some u) (Some v) \<longleftrightarrow> u < v" "lt_cell None b = False" "lt_cell a None = False"
  by (simp_all add: lt_cell_def split: option.splits)

lemma binding_excess:
  "lt_cell (abs_cell (sub_cell r o')) (Some thr) \<longleftrightarrow> binding thr o' r"
  by (cases r; cases o') (simp_all add: binding_def)

lemma below_excess:
  "below thr (excess t) = map fst (filter (\<lambda>e. binding thr (fst (snd e)) (snd (snd e))) t)"
  by (induction t) (simp_all add: below_def excess_def keys_def binding_excess)

lemma tab_rows:
  "tab A b diet =
     map (\<lambda>e. (fst (snd e), dot (map abs_cell (fst e)) (vals diet), abs_cell (snd (snd e))))
         (zip (cells A) b)"
proof -
  have "zip (map fst b) (zip (map f rows) (map (\<lambda>e. abs_cell (snd e)) b))
          = map (\<lambda>e. (fst (snd e), f (fst e), abs_cell (snd (snd e)))) (zip rows b)" for f rows
  proof (induction rows arbitrary: b)
    case Nil
    show ?case by simp
  next
    case (Cons r rows)
    then show ?case by (cases b) simp_all
  qed
  then show ?thesis by (simp add: tab_def keys_def vals_def comp_def)
qed

text \<open>
  Claim C6, as amended. The diagnostics compute, for each constraint, the outcome as
  the product of the absolute values of its matrix row with the diet and the
  recommendation as the absolute value of its bound. The project notebook reports a
  constraint as constraining exactly when both are numbers and differ by strictly less
  than 100 times \<open>tol\<close>; the lecture notebook, when they differ by strictly less than
  \<open>tol\<close>. The labels come in the order of the constraints.
\<close>

theorem constraining_nutrients:
  "tab A b diet =
     map (\<lambda>e. (fst (snd e), dot (map abs_cell (fst e)) (vals diet), abs_cell (snd (snd e))))
         (zip (cells A) b) \<and>
   constraining_project tol A b diet =
     map fst (filter (\<lambda>e. binding (tol * 100) (fst (snd e)) (snd (snd e))) (tab A b diet)) \<and>
   constraining_lecture tol A b diet =
     map fst (filter (\<lambda>e. binding tol (fst (snd e)) (snd (snd e))) (tab A b diet))"
  by (simp add: constraining_project_def constraining_lecture_def below_excess tab_rows)

text \<open>
  The claim as it stands fails in the project notebook: an outcome of 20.00005 against
  a recommendation of 20 is further than \<open>tol = 0.000001\<close> from it, and the nutrient
  is reported all the same, the bound of the comparison being \<open>tol*100\<close>.
\<close>

theorem constraining_nutrients_counterexample:
  "tab two_goods [(''N'', Some 20)] [(''A'', Some (2000005 / 1000000)), (''B'', Some 0)]
     = [(''N'', Some (2000005 / 100000), Some 20)] \<and>
   constraining_project (1 / 1000000) two_goods [(''N'', Some 20)]
       [(''A'', Some (2000005 / 1000000)), (''B'', Some 0)] = [''N''] \<and>
   \<not> \<bar>20 - 2000005 / 100000 :: real\<bar> \<le> 1 / 1000000 \<and>
   constraining_lecture (1 / 1000000) two_goods [(''N'', Some 20)]
       [(''A'', Some (2000005 / 1000000)), (''B'', Some 0)] = []"
  by code_simp

section \<open>The nutrient rows of the built system\<close>

lemma length_yield_vector [simp]: "length (yield_vector FoodNutrients goods n) = length goods"
  by (simp add: yield_vector_def)

lemma None_notin_yield_vector [simp]: "None \<notin> set (yield_vector FoodNutrients goods n)"
  by (auto simp: yield_vector_def split: option.splits)

lemma row_or_nan_listed:
  assumes "wf_frame FoodNutrients" "distinct (index FoodNutrients)"
    "distinct (columns FoodNutrients)" "set goods \<subseteq> set (columns FoodNutrients)"
    and "n \<in> set (index FoodNutrients)"
  shows "row_or_nan (fillna 0 \<lparr>index = index FoodNutrients, columns = goods,
           cells = map (\<lambda>r. map (\<lambda>g. r ! hd (positions (columns FoodNutrients) g)) goods)
                     (cells FoodNutrients)\<rparr>) n
         = yield_vector FoodNutrients goods n"
proof -
  from assms(2,5) obtain i where
    i: "positions (index FoodNutrients) n = [i]" "i < length (index FoodNutrients)"
    by (rule positions_distinct)
  from assms(1) i(2) have len: "i < length (cells FoodNutrients)"
    by (simp add: wf_frame_def)
  have "cell_at FoodNutrients n g = cells FoodNutrients ! i ! hd (positions (columns FoodNutrients) g)"
    if "g \<in> set goods" for g
    using cell_at_present[OF assms(2,3,5), of g] that assms(4) i(1) by auto
  then show ?thesis
    using len by (simp add: row_or_nan_def i(1) yield_vector_def)
qed

lemma row_or_nan_unlisted:
  assumes "n \<notin> set (index FoodNutrients)"
  shows "row_or_nan (fillna 0 \<lparr>index = index FoodNutrients, columns = goods, cells = cs\<rparr>) n
         = replicate (length goods) None"
  using assms by (simp add: row_or_nan_def positions_Nil_iff[THEN iffD2])

text \<open>
  Under unique labels the builder returns for every price series and all bounds. The
  row it makes for a bounded nutrient is the yield vector when the catalogue lists the
  nutrient, and a row of NaN when it does not.
\<close>

lemma assemble_rows:
  assumes "wf_frame FoodNutrients" "distinct (index FoodNutrients)" "distinct (columns FoodNutrients)"
  obtains p R where
    "mset p = mset (filter (\<lambda>e. snd e \<noteq> None \<and> fst e \<in> set (columns FoodNutrients)) p0)"
    "assemble FoodNutrients p0 dietmin dietmax
       = Inr (p, \<lparr>index = keys dietmin @ keys dietmax, columns = keys p,
                  cells = map R (keys dietmin) @ map (\<lambda>n. map neg (R n)) (keys dietmax)\<rparr>,
              dietmin @ neg_series dietmax)"
    "\<And>n. n \<in> set (index FoodNutrients) \<Longrightarrow> R n = yield_vector FoodNutrients (keys p) n"
    "\<And>n. n \<notin> set (index FoodNutrients) \<Longrightarrow> R n = replicate (length p) None"
proof -
  from assms(2,3) obtain p where
    p: "getitem_series (dropna p0) (intersection (keys (dropna p0)) (columns FoodNutrients)) = Inr p" and
    sub: "set (keys p) \<subseteq> set (columns FoodNutrients)" and
    asm: "\<And>Aall. Aall = fillna 0 \<lparr>index = index FoodNutrients, columns = keys p,
         cells = map (\<lambda>r. map (\<lambda>g. r ! hd (positions (columns FoodNutrients) g)) (keys p))
                   (cells FoodNutrients)\<rparr> \<Longrightarrow>
     assemble FoodNutrients p0 dietmin dietmax
       = Inr (p, \<lparr>index = keys dietmin @ keys dietmax, columns = keys p,
                  cells = map (row_or_nan Aall) (keys dietmin) @
                          map (\<lambda>k. map neg (row_or_nan Aall k)) (keys dietmax)\<rparr>,
              dietmin @ neg_series dietmax)"
    by (rule assemble_distinct[of FoodNutrients p0 dietmin dietmax]) blast
  define Aall where "Aall = fillna 0 \<lparr>index = index FoodNutrients, columns = keys p,
         cells = map (\<lambda>r. map (\<lambda>g. r ! hd (positions (columns FoodNutrients) g)) (keys p))
                   (cells FoodNutrients)\<rparr>"
  show thesis
  proof (rule that[of p "row_or_nan Aall"])
    show "mset p = mset (filter (\<lambda>e. snd e \<noteq> None \<and> fst e \<in> set (columns FoodNutrients)) p0)"
      by (rule mset_usable[OF p])
    show "assemble FoodNutrients p0 dietmin dietmax
       = Inr (p, \<lparr>index = keys dietmin @ keys dietmax, columns = keys p,
                  cells = map (row_or_nan Aall) (keys dietmin) @
                          map (\<lambda>n. map neg (row_or_nan Aall n)) (keys dietmax)\<rparr>,
              dietmin @ neg_series dietmax)"
      by (rule asm[OF Aall_def])
    show "row_or_nan Aall n = yield_vector FoodNutrients (keys p) n"
      if "n \<in> set (index FoodNutrients)" for n
      unfolding Aall_def by (rule row_or_nan_listed[OF assms sub that])
    show "row_or_nan Aall n = replicate (length p) None"
      if "n \<notin> set (index FoodNutrients)" for n
      unfolding Aall_def using row_or_nan_unlisted[OF that, of "keys p"] by (simp add: keys_def)
  qed
qed

text \<open>
  When the catalogue lists every bounded nutrient, the built system is the one the
  specification describes: one row per entry of the minimum series, in that series'
  order, followed by one row per entry of the maximum series, in that series' order;
  the row of a minimum entry is the yield vector of its nutrient and its bound is the
  minimum, the row of a maximum entry is the negated yield vector and its bound the
  negated maximum. A nutrient named in both series has one row in each block.
\<close>

lemma nutrient_rows_listed:
  assumes "wf_frame FoodNutrients" "distinct (index FoodNutrients)" "distinct (columns FoodNutrients)"
    and "set (keys dietmin) \<union> set (keys dietmax) \<subseteq> set (index FoodNutrients)"
  shows "\<exists>p A b.
           build FoodNutrients p0 dietmin dietmax None = Inr (p, A, b) \<and>
           mset p = mset (filter (\<lambda>e. snd e \<noteq> None \<and> fst e \<in> set (columns FoodNutrients)) p0) \<and>
           index A = keys dietmin @ keys dietmax \<and>
           columns A = keys p \<and>
           cells A = map (yield_vector FoodNutrients (keys p)) (keys dietmin) @
                     map (\<lambda>n. map neg (yield_vector FoodNutrients (keys p) n)) (keys dietmax) \<and>
           b = dietmin @ neg_series dietmax \<and>
           (\<forall>x. feasible_ge (cells A) (vals b) x \<longleftrightarrow>
                  list_all (\<lambda>v. 0 \<le> v) x \<and>
                  list_all (\<lambda>e. le_cell (snd e)
                                   (dot (yield_vector FoodNutrients (keys p) (fst e)) (map Some x)))
                           dietmin \<and>
                  list_all (\<lambda>e. le_cell (dot (yield_vector FoodNutrients (keys p) (fst e)) (map Some x))
                                   (snd e))
                           dietmax)"
proof (rule assemble_rows[OF assms(1-3), of p0 dietmin dietmax], goal_cases)
  case (1 p R)
  let ?Y = "yield_vector FoodNutrients (keys p)"
  have mn: "map R (keys dietmin) = map ?Y (keys dietmin)"
    using assms(4) by (intro map_cong refl 1(3)) auto
  have mx: "map (\<lambda>n. map neg (R n)) (keys dietmax) = map (\<lambda>n. map neg (?Y n)) (keys dietmax)"
    using assms(4) by (intro map_cong refl arg_cong[where f = "map neg"] 1(3)) auto
  have asm: "build FoodNutrients p0 dietmin dietmax None
       = Inr (p, \<lparr>index = keys dietmin @ keys dietmax, columns = keys p,
                  cells = map ?Y (keys dietmin) @ map (\<lambda>n. map neg (?Y n)) (keys dietmax)\<rparr>,
              dietmin @ neg_series dietmax)"
    unfolding build_None 1(2) mn mx ..
  have len: "length (map ?Y (keys dietmin)) = length (vals dietmin)"
    by (simp add: keys_def vals_def)
  have feas: "feasible_ge (map ?Y (keys dietmin) @ map (\<lambda>n. map neg (?Y n)) (keys dietmax))
                 (vals (dietmin @ neg_series dietmax)) x \<longleftrightarrow>
              list_all (\<lambda>v. 0 \<le> v) x \<and>
              list_all (\<lambda>e. le_cell (snd e) (dot (?Y (fst e)) (map Some x))) dietmin \<and>
              list_all (\<lambda>e. le_cell (dot (?Y (fst e)) (map Some x)) (snd e)) dietmax" for x
    by (auto simp: feasible_ge_append[OF len] feasible_ge_min_rows feasible_ge_max_rows)
  show ?case
    unfolding asm
    by (intro exI conjI, rule refl, rule 1(1))
       (simp_all only: frame.select_convs feas simp_thms)
qed

text \<open>
  Claim C1. The claim fails on a bound for a nutrient that the catalogue does not
  list. The catalogue lists \<open>N\<close> and \<open>M\<close>; the minima name \<open>N\<close>, \<open>M\<close> and \<open>Z\<close>, the
  maxima name \<open>N\<close>. The yield vector of \<open>Z\<close> over the usable goods \<open>A\<close> and \<open>B\<close> is
  \<open>(0, 0)\<close>, as unknown yields count as zero, and this is how the code fills the
  unknown yield of \<open>M\<close> in \<open>A\<close>. The row the project notebook builds for \<open>Z\<close> holds NaN
  in both places: \<open>fillna(0)\<close> runs before the reindexing that makes the row. The
  cells of the lecture notebook build no system at all: selecting the row \<open>Z\<close> raises
  \<open>KeyError\<close>.
\<close>

theorem nutrient_rows_unlisted:
  "assemble two_nutrients two_prices demo_min demo_max
     = Inr (two_prices,
            \<lparr>index = [''N'', ''M'', ''Z'', ''N''], columns = [''A'', ''B''],
             cells = [[Some 10, Some 5], [Some 0, Some 3], [None, None],
                      [Some (- 10), Some (- 5)]]\<rparr>,
            [(''N'', Some 20), (''M'', Some 1), (''Z'', Some 4), (''N'', Some (- 50))]) \<and>
   map (yield_vector two_nutrients [''A'', ''B'']) (keys demo_min)
     = [[Some 10, Some 5], [Some 0, Some 3], [Some 0, Some 0]] \<and>
   map (\<lambda>n. map neg (yield_vector two_nutrients [''A'', ''B''] n)) (keys demo_max)
     = [[Some (- 10), Some (- 5)]] \<and>
   lecture_problem two_nutrients two_prices demo_min demo_max = Inl KeyError"
proof -
  have run: "assemble two_nutrients two_prices demo_min demo_max
     = Inr (two_prices,
            \<lparr>index = [''N'', ''M'', ''Z'', ''N''], columns = [''A'', ''B''],
             cells = [[Some 10, Some 5], [Some 0, Some 3], [None, None],
                      [Some (- 10), Some (- 5)]]\<rparr>,
            [(''N'', Some 20), (''M'', Some 1), (''Z'', Some 4), (''N'', Some (- 50))])"
    by code_simp
  have mn: "map (yield_vector two_nutrients [''A'', ''B'']) (keys demo_min)
     = [[Some 10, Some 5], [Some 0, Some 3], [Some 0, Some 0]]"
    by code_simp
  have mx: "map (\<lambda>n. map neg (yield_vector two_nutrients [''A'', ''B''] n)) (keys demo_max)
     = [[Some (- 10), Some (- 5)]]"
    by code_simp
  have lec: "lecture_problem two_nutrients two_prices demo_min demo_max = Inl KeyError"
    by code_simp
  from run mn mx lec show ?thesis by (intro conjI)
qed

section \<open>Bounds on nutrients the catalogue does not list\<close>


lemma build_cases:
  assumes "build FoodNutrients p0 dietmin dietmax max_weight = Inr (q, A, b)"
  obtains p A0 b0 where
    "assemble FoodNutrients p0 dietmin dietmax = Inr (p, A0, b0)"
    "add_max_weight max_weight (p, A0, b0) = Inr (q, A, b)"
  using assms unfolding build_def ebind_eq_Inr by auto



section \<open>The cap on the total weight\<close>

lemma build_Some:
  "build FoodNutrients p0 dietmin dietmax (Some w) =
     ebind (assemble FoodNutrients p0 dietmin dietmax) (\<lambda>inst.
       ebind (loc_set_row (fst (snd inst)) ''Hectograms'' (Some (- 1))) (\<lambda>A'.
         Inr (fst inst, A', loc_set_entry (snd (snd inst)) ''Hectograms'' (Some (- w)))))"
  by (cases "assemble FoodNutrients p0 dietmin dietmax")
     (auto simp: build_def add_max_weight_def split: prod.splits)

text \<open>
  When no bound is labelled \<open>Hectograms\<close> and at least one good is usable, the cap
  step does what the specification describes: the system built without the cap gets
  exactly one more row, placed last, whose coefficient is \<open>-1\<close> for every usable good
  and whose bound is the negated cap.
\<close>

lemma cap_row_appended:
  assumes "build FoodNutrients p0 dietmin dietmax None = Inr (p, A0, b0)"
    and "''Hectograms'' \<notin> set (keys dietmin @ keys dietmax)"
    and "p \<noteq> []"
  shows "build FoodNutrients p0 dietmin dietmax (Some w)
           = Inr (p, \<lparr>index = index A0 @ [''Hectograms''], columns = keys p,
                      cells = cells A0 @ [replicate (length p) (Some (- 1))]\<rparr>,
                  b0 @ [(''Hectograms'', Some (- w))])"
proof -
  from assms(1) have asm: "assemble FoodNutrients p0 dietmin dietmax = Inr (p, A0, b0)"
    by simp
  note sel = assemble_Inr(2-4)[OF asm]
  have fresh: "''Hectograms'' \<notin> set (index A0)" "''Hectograms'' \<notin> set (keys b0)"
    using assms(2) sel by simp_all
  have cols: "columns A0 \<noteq> []" "length (columns A0) = length p"
    using assms(3) sel(1) by (simp_all add: keys_def)
  have row: "loc_set_row A0 ''Hectograms'' (Some (- 1))
      = Inr \<lparr>index = index A0 @ [''Hectograms''], columns = keys p,
             cells = cells A0 @ [replicate (length p) (Some (- 1))]\<rparr>"
    using fresh(1) cols sel(1) by (cases A0) (simp add: loc_set_row_def Let_def)
  have ent: "loc_set_entry b0 ''Hectograms'' (Some (- w)) = b0 @ [(''Hectograms'', Some (- w))]"
    using fresh(2) by (simp add: loc_set_entry_def)
  show ?thesis
    by (simp add: build_Some asm row ent)
qed

text \<open>
  Claim C5. The claim fails on two inputs. In the first the catalogue lists the weight
  of each good as the row \<open>Hectograms\<close> and the minima ask for 20 units of \<open>N\<close> and 5
  hectograms of food. Without a cap the system has the two rows of the two bounds. With
  a cap of 3 it still has two rows, where the claim counts three: the cap step writes
  over the row and the bound that carry the label \<open>Hectograms\<close>, so the minimum of 5
  hectograms is gone, and no row is added. In the second input no priced good is in the
  catalogue. Without a cap the system has no column and the one row of the bound; with
  a cap of 12 the cap step raises and there is no system.
\<close>

theorem cap_row_not_appended:
  "build weighed_goods two_prices [(''N'', Some 20), (''Hectograms'', Some 5)] [] None
     = Inr (two_prices,
            \<lparr>index = [''N'', ''Hectograms''], columns = [''A'', ''B''],
             cells = [[Some 10, Some 5], [Some 1, Some 1]]\<rparr>,
            [(''N'', Some 20), (''Hectograms'', Some 5)]) \<and>
   build weighed_goods two_prices [(''N'', Some 20), (''Hectograms'', Some 5)] [] (Some 3)
     = Inr (two_prices,
            \<lparr>index = [''N'', ''Hectograms''], columns = [''A'', ''B''],
             cells = [[Some 10, Some 5], [Some (- 1), Some (- 1)]]\<rparr>,
            [(''N'', Some 20), (''Hectograms'', Some (- 3))]) \<and>
   build two_goods unlisted_prices [(''N'', Some 5)] [] None
     = Inr ([], \<lparr>index = [''N''], columns = [], cells = [[]]\<rparr>, [(''N'', Some 5)]) \<and>
   build two_goods unlisted_prices [(''N'', Some 5)] [] (Some 12) = Inl no_defined_columns"
proof -
  have a: "build weighed_goods two_prices [(''N'', Some 20), (''Hectograms'', Some 5)] [] None
     = Inr (two_prices,
            \<lparr>index = [''N'', ''Hectograms''], columns = [''A'', ''B''],
             cells = [[Some 10, Some 5], [Some 1, Some 1]]\<rparr>,
            [(''N'', Some 20), (''Hectograms'', Some 5)])"
    by code_simp
  have b: "build weighed_goods two_prices [(''N'', Some 20), (''Hectograms'', Some 5)] [] (Some 3)
     = Inr (two_prices,
            \<lparr>index = [''N'', ''Hectograms''], columns = [''A'', ''B''],
             cells = [[Some 10, Some 5], [Some (- 1), Some (- 1)]]\<rparr>,
            [(''N'', Some 20), (''Hectograms'', Some (- 3))])"
    by code_simp
  have c: "build two_goods unlisted_prices [(''N'', Some 5)] [] None
     = Inr ([], \<lparr>index = [''N''], columns = [], cells = [[]]\<rparr>, [(''N'', Some 5)])"
    by code_simp
  have d: "build two_goods unlisted_prices [(''N'', Some 5)] [] (Some 12) = Inl no_defined_columns"
    by code_simp
  from a b c d show ?thesis by (intro conjI)
qed

section \<open>Outcomes of the solver call\<close>


text \<open>
  The scenario with a minimum of 1000 and a cap of 1: the system the builder returns,
  and no quantity vector satisfies it.
\<close>

lemma infeasible_capped:
  assumes "length x = 2"
  shows "\<not> feasible_ge [[Some 10, Some 5], [Some (- 1), Some (- 1)]] [Some 1000, Some (- 1)] x"
proof -
  from assms obtain a b where x: "x = [a, b]" by (auto simp: length_two)
  show ?thesis
    unfolding x feasible_ge_def by (simp; linarith)
qed

lemma capped_instance:
  "build two_goods two_prices [(''N'', Some 1000)] [] (Some 1)
     = Inr (two_prices,
            \<lparr>index = [''N'', ''Hectograms''], columns = [''A'', ''B''],
             cells = [[Some 10, Some 5], [Some (- 1), Some (- 1)]]\<rparr>,
            [(''N'', Some 1000), (''Hectograms'', Some (- 1))])"
  by code_simp

text \<open>
  Claim C4. The claim fails when no priced good is in the catalogue. Without a cap the
  builder returns a system with the row of the minimum and no column. No quantity
  vector satisfies it: the empty diet yields 0, which is less than the minimum of 20.
  The solver is called with the empty cost vector, and the function has no handler
  around the call. With a cap of 1 in addition the function raises \<open>ValueError\<close>
  whatever the solver is, before the solver is called: the cap step sets a row in a
  frame that has no column. No result with a success flag and a diet of NaN is
  returned.
\<close>

theorem no_usable_good_raises:
  "build two_goods unlisted_prices [(''N'', Some 20)] [] None
     = Inr ([], \<lparr>index = [''N''], columns = [], cells = [[]]\<rparr>, [(''N'', Some 20)]) \<and>
   lp_arguments ([], \<lparr>index = [''N''], columns = [], cells = [[]]\<rparr>, [(''N'', Some 20)])
     = ([], [[]], [Some (- 20)]) \<and>
   \<not> feasible_ge [[]] [Some 20] x \<and>
   solve_subsistence_problem lp two_goods (NoUnits unlisted_prices) [(''N'', Some 20)] []
       (Some 1) tol
     = Inl no_defined_columns"
proof -
  have a: "build two_goods unlisted_prices [(''N'', Some 20)] [] None
     = Inr ([], \<lparr>index = [''N''], columns = [], cells = [[]]\<rparr>, [(''N'', Some 20)])"
    by code_simp
  have b: "lp_arguments ([], \<lparr>index = [''N''], columns = [], cells = [[]]\<rparr>, [(''N'', Some 20)])
     = ([], [[]], [Some (- 20)])"
    by code_simp
  have c: "\<not> feasible_ge [[]] [Some 20] x"
    by (simp add: feasible_ge_def)
  have "build two_goods unlisted_prices [(''N'', Some 20)] [] (Some 1) = Inl no_defined_columns"
    by code_simp
  then have d: "solve_subsistence_problem lp two_goods (NoUnits unlisted_prices) [(''N'', Some 20)] []
       (Some 1) tol
     = Inl no_defined_columns"
    by (simp add: solve_subsistence_problem_def unlisted_prices_def)
  from a b c d show ?thesis by (intro conjI)
qed

section \<open>The two-goods scenario\<close>


lemma two_goods_optimum:
  assumes "0 \<le> m"
  shows "optimal_ge [Some 1, Some 2] [[Some 10, Some 5]] [Some m] x \<longleftrightarrow> x = [m / 10, 0]"
proof
  assume opt: "optimal_ge [Some 1, Some 2] [[Some 10, Some 5]] [Some m] x"
  then obtain a b where x: "x = [a, b]"
    by (auto simp: optimal_ge_def length_Suc_conv)
  from opt have feas: "0 \<le> a" "0 \<le> b" "m \<le> 10 * a + 5 * b"
    by (simp_all add: optimal_ge_def x feasible_two_goods)
  have "feasible_ge [[Some 10, Some 5]] [Some m] [m / 10, 0]"
    using assms by (simp add: feasible_two_goods)
  with opt have "le_cell (objective [Some 1, Some 2] x) (objective [Some 1, Some 2] [m / 10, 0])"
    by (simp add: optimal_ge_def)
  then have "a + 2 * b \<le> m / 10"
    by (simp add: x objective_two_goods)
  with feas have "a = m / 10" "b = 0" by linarith+
  then show "x = [m / 10, 0]" by (simp add: x)
next
  assume x: "x = [m / 10, 0]"
  have "le_cell (objective [Some 1, Some 2] [m / 10, 0]) (objective [Some 1, Some 2] y)"
    if "length y = length [Some (1::real), Some 2]" "feasible_ge [[Some 10, Some 5]] [Some m] y" for y
  proof -
    from that(1) obtain a b where y: "y = [a, b]" by (auto simp: length_Suc_conv)
    from that(2) have "0 \<le> a" "0 \<le> b" "m \<le> 10 * a + 5 * b"
      by (simp_all add: y feasible_two_goods)
    then have "m / 10 \<le> a + 2 * b" by linarith
    then show ?thesis by (simp add: y objective_two_goods)
  qed
  then show "optimal_ge [Some 1, Some 2] [[Some 10, Some 5]] [Some m] x"
    unfolding optimal_ge_def x using assms by (simp add: feasible_two_goods)
qed



section \<open>Tightening a bound\<close>

lemma ebind_assoc: "ebind (ebind m f) g = ebind m (\<lambda>v. ebind (f v) g)"
  by (cases m) simp_all

lemma assemble_by_keys:
  "\<exists>F. \<forall>dietmin dietmax.
      assemble FoodNutrients p0 dietmin dietmax =
        ebind (F (keys dietmin) (keys dietmax))
              (\<lambda>pa. Inr (fst pa, snd pa, dietmin @ neg_series dietmax))"
proof -
  define F where "F kmin kmax =
     (let p1 = dropna p0;
          use = intersection (keys p1) (columns FoodNutrients) in
      ebind (getitem_series p1 use) (\<lambda>p.
      ebind (getitem_columns FoodNutrients (keys p)) (\<lambda>sel.
      let Aall = fillna 0 sel in
      ebind (loc_rows Aall (intersection (index Aall) kmin)) (\<lambda>Amin0.
      ebind (reindex_rows Amin0 kmin) (\<lambda>Amin.
      ebind (loc_rows Aall (intersection (index Aall) kmax)) (\<lambda>Amax0.
      ebind (reindex_rows Amax0 kmax) (\<lambda>Amax.
      ebind (reindex_columns (concat_frames Amin (neg_frame Amax)) (keys p)) (\<lambda>A1.
      ebind (reindex_rows A1 (kmin @ kmax)) (\<lambda>A.
      Inr (p, A))))))))))" for kmin kmax
  have "assemble FoodNutrients p0 dietmin dietmax =
        ebind (F (keys dietmin) (keys dietmax))
              (\<lambda>pa. Inr (fst pa, snd pa, dietmin @ neg_series dietmax))" for dietmin dietmax
    by (simp add: assemble_def F_def Let_def ebind_assoc)
  then show ?thesis by blast
qed

lemma assemble_same_keys:
  assumes "keys dietmin' = keys dietmin" "keys dietmax' = keys dietmax"
    and "assemble FoodNutrients p0 dietmin dietmax = Inr (p, A, b)"
  shows "assemble FoodNutrients p0 dietmin' dietmax' = Inr (p, A, dietmin' @ neg_series dietmax')"
proof -
  from assemble_by_keys[of FoodNutrients p0] obtain F where
    F: "\<And>dietmin dietmax. assemble FoodNutrients p0 dietmin dietmax =
        ebind (F (keys dietmin) (keys dietmax))
              (\<lambda>pa. Inr (fst pa, snd pa, dietmin @ neg_series dietmax))"
    by blast
  from assms(3) have "F (keys dietmin) (keys dietmax) = Inr (p, A)"
    unfolding F[of dietmin dietmax] by (auto simp: ebind_eq_Inr)
  then show ?thesis
    unfolding F[of dietmin' dietmax'] assms(1,2) by simp
qed

lemma le_cell_trans: "le_cell a b \<Longrightarrow> le_cell b c \<Longrightarrow> le_cell a c"
  by (cases a; cases b; cases c) simp_all

lemma feasible_ge_mono:
  assumes "list_all2 (\<lambda>v v'. v = v' \<or> le_cell v v') bs bs'" "feasible_ge A bs' x"
  shows "feasible_ge A bs x"
proof -
  have "list_all (\<lambda>e. le_cell (snd e) (dot (fst e) (map Some x))) (zip A bs)"
    if "list_all (\<lambda>e. le_cell (snd e) (dot (fst e) (map Some x))) (zip A bs')"
    using assms(1) that
  proof (induction bs bs' arbitrary: A rule: list_all2_induct)
    case Nil
    show ?case by simp
  next
    case (Cons v bs v' bs')
    show ?case
    proof (cases A)
      case Nil
      then show ?thesis by simp
    next
      case (Cons row rows)
      with Cons.prems Cons.hyps(1) Cons.IH[of rows] show ?thesis
        by (auto intro: le_cell_trans)
    qed
  qed
  with assms(2) show ?thesis by (simp add: feasible_ge_def)
qed

lemma entries_rel_vals:
  assumes "list_all2 (\<lambda>e e'. fst e = fst e' \<and> (snd e = snd e' \<or> le_cell (snd e) (snd e'))) b b'"
  shows "list_all2 (\<lambda>v v'. v = v' \<or> le_cell v v') (vals b) (vals b')"
    and "keys b' = keys b"
  using assms by (induction rule: list_all2_induct) (simp_all add: vals_def keys_def)

lemma entries_rel_min:
  assumes "keys s' = keys s"
    and "list_all (\<lambda>e. fst e = snd e \<or> le_cell (fst e) (snd e)) (zip (vals s) (vals s'))"
  shows "list_all2 (\<lambda>e e'. fst e = fst e' \<and> (snd e = snd e' \<or> le_cell (snd e) (snd e'))) s s'"
proof -
  from assms(1) have len: "length s = length s'"
    by (metis keys_def length_map)
  show ?thesis
  proof (rule list_all2_all_nthI[OF len])
    fix n assume n: "n < length s"
    from assms(1) n len have "fst (s ! n) = fst (s' ! n)"
      by (metis keys_def nth_map)
    moreover from assms(2) n len
    have "snd (s ! n) = snd (s' ! n) \<or> le_cell (snd (s ! n)) (snd (s' ! n))"
      by (auto simp: list_all_length vals_def)
    ultimately show "fst (s ! n) = fst (s' ! n) \<and>
        (snd (s ! n) = snd (s' ! n) \<or> le_cell (snd (s ! n)) (snd (s' ! n)))" by simp
  qed
qed

lemma entries_rel_max:
  assumes "keys s' = keys s"
    and "list_all (\<lambda>e. fst e = snd e \<or> le_cell (snd e) (fst e)) (zip (vals s) (vals s'))"
  shows "list_all2 (\<lambda>e e'. fst e = fst e' \<and> (snd e = snd e' \<or> le_cell (snd e) (snd e')))
           (neg_series s) (neg_series s')"
proof -
  from assms(1) have len: "length s = length s'"
    by (metis keys_def length_map)
  then have len': "length (neg_series s) = length (neg_series s')"
    by (simp add: neg_series_def)
  show ?thesis
  proof (rule list_all2_all_nthI[OF len'])
    fix n assume "n < length (neg_series s)"
    then have n: "n < length s" by (simp add: neg_series_def)
    from assms(1) n len have k: "fst (s ! n) = fst (s' ! n)"
      by (metis keys_def nth_map)
    from assms(2) n len
    have "snd (s ! n) = snd (s' ! n) \<or> le_cell (snd (s' ! n)) (snd (s ! n))"
      by (auto simp: list_all_length vals_def)
    then have "neg (snd (s ! n)) = neg (snd (s' ! n)) \<or> le_cell (neg (snd (s ! n))) (neg (snd (s' ! n)))"
      by (auto simp: le_cell_neg)
    with k n len show "fst (neg_series s ! n) = fst (neg_series s' ! n) \<and>
        (snd (neg_series s ! n) = snd (neg_series s' ! n) \<or>
         le_cell (snd (neg_series s ! n)) (snd (neg_series s' ! n)))"
      by (simp add: neg_series_def)
  qed
qed

lemma entries_rel_set:
  assumes "list_all2 (\<lambda>e e'. fst e = fst e' \<and> (snd e = snd e' \<or> le_cell (snd e) (snd e'))) b b'"
  shows "list_all2 (\<lambda>e e'. fst e = fst e' \<and> (snd e = snd e' \<or> le_cell (snd e) (snd e')))
           (loc_set_entry b k v) (loc_set_entry b' k v)"
proof -
  have keys: "keys b' = keys b" by (rule entries_rel_vals(2)[OF assms])
  show ?thesis
  proof (cases "k \<in> set (keys b)")
    case True
    with keys show ?thesis
      using assms by (auto simp: loc_set_entry_def list_all2_map1 list_all2_map2 elim!: list_all2_mono)
  next
    case False
    with keys show ?thesis
      using assms by (auto simp: loc_set_entry_def intro!: list_all2_appendI)
  qed
qed

lemma build_tightened:
  assumes "tightens dietmin dietmax dietmin' dietmax'"
    and "build FoodNutrients p0 dietmin dietmax max_weight = Inr (p, A, b)"
  shows "\<exists>b'. build FoodNutrients p0 dietmin' dietmax' max_weight = Inr (p, A, b') \<and>
              list_all2 (\<lambda>v v'. v = v' \<or> le_cell v v') (vals b) (vals b')"
proof -
  let ?E = "list_all2 (\<lambda>e e'. fst e = fst e' \<and> (snd e = snd e' \<or> le_cell (snd e) (snd e')))"
  from assms(1) have k: "keys dietmin' = keys dietmin" "keys dietmax' = keys dietmax"
    by (simp_all add: tightens_def)
  from assms(1) have Emin: "?E dietmin dietmin'"
    by (intro entries_rel_min) (simp_all add: tightens_def)
  from assms(1) have Emax: "?E (neg_series dietmax) (neg_series dietmax')"
    by (intro entries_rel_max) (simp_all add: tightens_def)
  have E0: "?E (dietmin @ neg_series dietmax) (dietmin' @ neg_series dietmax')"
    by (rule list_all2_appendI[OF Emin Emax])
  from assms(2) obtain A0 b0 where
    asm: "assemble FoodNutrients p0 dietmin dietmax = Inr (p, A0, b0)" and
    add: "add_max_weight max_weight (p, A0, b0) = Inr (p, A, b)"
    unfolding build_def ebind_eq_Inr
    by (auto simp: add_max_weight_def ebind_eq_Inr split: option.splits)
  have b0: "b0 = dietmin @ neg_series dietmax" by (rule assemble_Inr(4)[OF asm])
  have asm': "assemble FoodNutrients p0 dietmin' dietmax' = Inr (p, A0, dietmin' @ neg_series dietmax')"
    by (rule assemble_same_keys[OF k asm])
  show ?thesis
  proof (cases max_weight)
    case None
    with add have "A = A0" "b = b0" by (simp_all add: add_max_weight_def)
    with None asm' E0 show ?thesis
      by (auto simp: build_def add_max_weight_def b0 dest: entries_rel_vals(1))
  next
    case (Some w)
    with add have A: "loc_set_row A0 ''Hectograms'' (Some (- 1)) = Inr A"
      and b: "b = loc_set_entry b0 ''Hectograms'' (Some (- w))"
      by (auto simp: add_max_weight_def ebind_eq_Inr)
    have "?E b (loc_set_entry (dietmin' @ neg_series dietmax') ''Hectograms'' (Some (- w)))"
      unfolding b b0 by (rule entries_rel_set[OF E0])
    then have "list_all2 (\<lambda>v v'. v = v' \<or> le_cell v v') (vals b)
                 (vals (loc_set_entry (dietmin' @ neg_series dietmax') ''Hectograms'' (Some (- w))))"
      by (rule entries_rel_vals(1))
    with Some asm' A show ?thesis
      by (simp add: build_def add_max_weight_def)
  qed
qed

text \<open>
  The problems of two inputs of which the second tightens bounds of the first. When
  the builder returns for the first input it returns for the second, with the same
  goods and the same matrix. Every quantity vector that satisfies the second system
  satisfies the first, so in exact arithmetic an optimum of the second problem costs at
  least as much as an optimum of the first.
\<close>

lemma tightened_problem:
  assumes "tightens dietmin dietmax dietmin' dietmax'"
    and "build FoodNutrients p0 dietmin dietmax max_weight = Inr (p, A, b)"
  shows "\<exists>b'. build FoodNutrients p0 dietmin' dietmax' max_weight = Inr (p, A, b') \<and>
              (\<forall>x. feasible_ge (cells A) (vals b') x \<longrightarrow> feasible_ge (cells A) (vals b) x) \<and>
              (\<forall>x x'. optimal_ge (vals p) (cells A) (vals b) x \<and>
                       optimal_ge (vals p) (cells A) (vals b') x' \<longrightarrow>
                       le_cell (objective (vals p) x) (objective (vals p) x'))"
proof -
  from build_tightened[OF assms] obtain b' where
    build': "build FoodNutrients p0 dietmin' dietmax' max_weight = Inr (p, A, b')"
    and rel: "list_all2 (\<lambda>v v'. v = v' \<or> le_cell v v') (vals b) (vals b')"
    by blast
  have sub: "feasible_ge (cells A) (vals b) x" if "feasible_ge (cells A) (vals b') x" for x
    using rel that by (rule feasible_ge_mono)
  have mono: "le_cell (objective (vals p) x) (objective (vals p) x')"
    if "optimal_ge (vals p) (cells A) (vals b) x \<and> optimal_ge (vals p) (cells A) (vals b') x'"
    for x x'
  proof -
    from that have "length x' = length (vals p)" "feasible_ge (cells A) (vals b') x'"
      by (simp_all add: optimal_ge_def)
    with sub have "length x' = length (vals p) \<and> feasible_ge (cells A) (vals b) x'" by simp
    with that show ?thesis by (simp add: optimal_ge_def)
  qed
  from build' sub mono show ?thesis by blast
qed

text \<open>
  The same for the cap, under unique labels and when no bound is labelled
  \<open>Hectograms\<close>: the system with the cap is the system without it and one more
  constraint, so an optimum under the cap costs at least as much as an optimum without
  it.
\<close>

lemma capped_problem:
  assumes "wf_frame FoodNutrients" "distinct (index FoodNutrients)" "distinct (columns FoodNutrients)"
    and "''Hectograms'' \<notin> set (keys dietmin @ keys dietmax)"
    and "build FoodNutrients p0 dietmin dietmax (Some w) = Inr (p, A, b)"
  shows "\<exists>A0 b0. build FoodNutrients p0 dietmin dietmax None = Inr (p, A0, b0) \<and>
           (\<forall>x. feasible_ge (cells A) (vals b) x \<longleftrightarrow>
                  feasible_ge (cells A0) (vals b0) x \<and>
                  le_cell (Some (- w)) (dot (replicate (length p) (Some (- 1))) (map Some x))) \<and>
           (\<forall>x x'. optimal_ge (vals p) (cells A0) (vals b0) x \<and>
                    optimal_ge (vals p) (cells A) (vals b) x' \<longrightarrow>
                    le_cell (objective (vals p) x) (objective (vals p) x'))"
proof (rule assemble_rows[OF assms(1-3), of p0 dietmin dietmax], goal_cases)
  case (1 p' R)
  define A0 where "A0 = \<lparr>index = keys dietmin @ keys dietmax, columns = keys p',
                  cells = map R (keys dietmin) @ map (\<lambda>n. map neg (R n)) (keys dietmax)\<rparr>"
  define b0 where "b0 = dietmin @ neg_series dietmax"
  have asm: "assemble FoodNutrients p0 dietmin dietmax = Inr (p', A0, b0)"
    unfolding A0_def b0_def by (rule 1(2))
  have none: "build FoodNutrients p0 dietmin dietmax None = Inr (p', A0, b0)"
    by (simp add: asm)
  from assms(5) asm have add: "add_max_weight (Some w) (p', A0, b0) = Inr (p, A, b)"
    by (auto elim!: build_cases)
  then have p: "p = p'" and row: "loc_set_row A0 ''Hectograms'' (Some (- 1)) = Inr A"
    by (auto simp: add_max_weight_def ebind_eq_Inr)
  have "''Hectograms'' \<notin> set (index A0)"
    using assms(4) by (simp add: A0_def)
  with row have "columns A0 \<noteq> []"
    by (auto simp: loc_set_row_def Let_def split: if_splits)
  then have pne: "p' \<noteq> []" by (auto simp: A0_def keys_def)
  from cap_row_appended[OF none assms(4) pne, of w] assms(5)
  have A: "cells A = cells A0 @ [replicate (length p) (Some (- 1))]"
    and b: "b = b0 @ [(''Hectograms'', Some (- w))]"
    by (simp_all add: p)
  have len: "length (cells A0) = length (vals b0)"
    by (simp add: A0_def b0_def vals_def keys_def neg_series_def)
  have feas: "feasible_ge (cells A) (vals b) x \<longleftrightarrow>
                  feasible_ge (cells A0) (vals b0) x \<and>
                  le_cell (Some (- w)) (dot (replicate (length p) (Some (- 1))) (map Some x))" for x
    unfolding A b vals_append feasible_ge_append[OF len]
    by (auto simp: feasible_ge_def vals_def)
  have mono: "le_cell (objective (vals p) x) (objective (vals p) x')"
    if "optimal_ge (vals p) (cells A0) (vals b0) x \<and> optimal_ge (vals p) (cells A) (vals b) x'"
    for x x'
  proof -
    from that have "length x' = length (vals p)" "feasible_ge (cells A) (vals b) x'"
      by (simp_all add: optimal_ge_def)
    with feas have "length x' = length (vals p) \<and> feasible_ge (cells A0) (vals b0) x'" by simp
    with that show ?thesis by (simp add: optimal_ge_def)
  qed
  from none feas mono show ?case unfolding p by blast
qed

text \<open>
  Claim C7. The claim fails when no priced good is in the catalogue. The two inputs
  differ in the minimum of \<open>N\<close> only, which is 0 in the first and 30 in the second; both
  have a cap of 2. The system of the first bound is satisfied by the empty diet, the
  system of the second by no quantity vector, so the tightening makes the problem
  infeasible. The function returns no result whose success flag is false: for both
  inputs it raises \<open>ValueError\<close> in the cap step, whatever the solver is.
\<close>

theorem tightening_without_goods:
  "tightens [(''N'', Some 0)] [] [(''N'', Some 30)] [] \<and>
   build two_goods unlisted_prices [(''N'', Some 0)] [] None
     = Inr ([], \<lparr>index = [''N''], columns = [], cells = [[]]\<rparr>, [(''N'', Some 0)]) \<and>
   feasible_ge [[]] [Some 0] [] \<and>
   build two_goods unlisted_prices [(''N'', Some 30)] [] None
     = Inr ([], \<lparr>index = [''N''], columns = [], cells = [[]]\<rparr>, [(''N'', Some 30)]) \<and>
   \<not> feasible_ge [[]] [Some 30] x \<and>
   solve_subsistence_problem lp two_goods (NoUnits unlisted_prices) [(''N'', Some 0)] []
       (Some 2) tol
     = Inl no_defined_columns \<and>
   solve_subsistence_problem lp two_goods (NoUnits unlisted_prices) [(''N'', Some 30)] []
       (Some 2) tol
     = Inl no_defined_columns"
proof -
  have t: "tightens [(''N'', Some 0)] [] [(''N'', Some 30)] []" by code_simp
  have a: "build two_goods unlisted_prices [(''N'', Some 0)] [] None
     = Inr ([], \<lparr>index = [''N''], columns = [], cells = [[]]\<rparr>, [(''N'', Some 0)])"
    by code_simp
  have fa: "feasible_ge [[]] [Some 0] []"
    by (simp add: feasible_ge_def)
  have b: "build two_goods unlisted_prices [(''N'', Some 30)] [] None
     = Inr ([], \<lparr>index = [''N''], columns = [], cells = [[]]\<rparr>, [(''N'', Some 30)])"
    by code_simp
  have fb: "\<not> feasible_ge [[]] [Some 30] x"
    by (simp add: feasible_ge_def)
  have "build two_goods unlisted_prices [(''N'', Some 0)] [] (Some 2) = Inl no_defined_columns"
    by code_simp
  then have ra: "solve_subsistence_problem lp two_goods (NoUnits unlisted_prices) [(''N'', Some 0)] []
       (Some 2) tol
     = Inl no_defined_columns"
    by (simp add: solve_subsistence_problem_def unlisted_prices_def)
  have "build two_goods unlisted_prices [(''N'', Some 30)] [] (Some 2) = Inl no_defined_columns"
    by code_simp
  then have rb: "solve_subsistence_problem lp two_goods (NoUnits unlisted_prices) [(''N'', Some 30)] []
       (Some 2) tol
     = Inl no_defined_columns"
    by (simp add: solve_subsistence_problem_def unlisted_prices_def)
  from t a fa b fb ra rb show ?thesis by (intro conjI)
qed

end
